theory Spec2Isabelle
  imports Main "HOL-Library.Log_Nat"
begin

section \<open>JavaScript values used by the service\<close>

text \<open>
  A JavaScript \<^verbatim>\<open>number\<close> is an IEEE 754 binary64 value: not-a-number, the two
  infinities, negative zero, or a finite rational (positive zero is \<open>Fin 0\<close>). The
  operators below deliver only rationals that binary64 represents, those that
  \<open>round_binary64\<close> leaves alone.
\<close>

datatype number = NaN | PosInf | NegInf | NegZero | Fin rat

subsection \<open>Rounding to binary64\<close>

text \<open>
  \<open>ilog2 x\<close> is the binary exponent of a positive rational: the \<open>e\<close> with
  \<open>2 powi e \<le> x < 2 powi (e + 1)\<close>.
\<close>

definition ilog2 :: "rat \<Rightarrow> int" where
  "ilog2 x = (if 1 \<le> x then bitlen \<lfloor>x\<rfloor> - 1 else - bitlen (\<lceil>1 / x\<rceil> - 1))"

text \<open>Rounding to the nearest integer, ties to the even one.\<close>

definition round_half_even :: "rat \<Rightarrow> int" where
  "round_half_even x =
     (let f = \<lfloor>x\<rfloor>; d = x - of_int f
      in if d < 1 / 2 then f
         else if 1 / 2 < d then f + 1
         else if even f then f else f + 1)"

text \<open>
  The spacing of binary64 values around \<open>x\<close>: 53 significant bits, and the fixed spacing
  \<open>2 powi (- 1074)\<close> of the subnormal range below \<open>2 powi (- 1022)\<close>.
\<close>

definition ulp :: "rat \<Rightarrow> rat" where
  "ulp x = 2 powi (max (ilog2 \<bar>x\<bar>) (- 1022) - 52)"

text \<open>Round to nearest, ties to even, with the exponent unbounded above.\<close>

definition round_binary64 :: "rat \<Rightarrow> rat" where
  "round_binary64 x = (if x = 0 then 0 else of_int (round_half_even (x / ulp x)) * ulp x)"

text \<open>
  The number that an exact result \<open>x\<close> is delivered as: it overflows to an infinity from
  \<open>2 ^ 1024\<close> on, and a result that rounds to zero keeps the sign \<open>neg\<close>.
\<close>

definition to_number :: "bool \<Rightarrow> rat \<Rightarrow> number" where
  "to_number neg x =
     (let r = round_binary64 x
      in if 2 ^ 1024 \<le> r then PosInf
         else if r \<le> - (2 ^ 1024) then NegInf
         else if r = 0 then (if neg then NegZero else Fin 0)
         else Fin r)"

text \<open>A numeric literal of the source text, of decimal value \<open>q\<close>.\<close>

definition num_lit :: "rat \<Rightarrow> number" where
  "num_lit q = to_number False q"

subsection \<open>The operators of the language on numbers\<close>

fun is_inf :: "number \<Rightarrow> bool" where
  "is_inf PosInf = True"
| "is_inf NegInf = True"
| "is_inf _ = False"

fun is_zero :: "number \<Rightarrow> bool" where
  "is_zero NegZero = True"
| "is_zero (Fin r) = (r = 0)"
| "is_zero _ = False"

fun sign_bit :: "number \<Rightarrow> bool" where
  "sign_bit NegInf = True"
| "sign_bit NegZero = True"
| "sign_bit (Fin r) = (r < 0)"
| "sign_bit _ = False"

text \<open>The value of a finite number, and the position of a number among the infinities.\<close>

fun val :: "number \<Rightarrow> rat" where
  "val (Fin r) = r"
| "val _ = 0"

fun rank :: "number \<Rightarrow> int" where
  "rank NegInf = - 1"
| "rank PosInf = 1"
| "rank _ = 0"

definition signed_inf :: "bool \<Rightarrow> number" where
  "signed_inf neg = (if neg then NegInf else PosInf)"

definition signed_zero :: "bool \<Rightarrow> number" where
  "signed_zero neg = (if neg then NegZero else Fin 0)"

text \<open>\<^verbatim>\<open>x * y\<close>\<close>

definition js_mul :: "number \<Rightarrow> number \<Rightarrow> number" where
  "js_mul x y =
     (if x = NaN \<or> y = NaN then NaN
      else if is_inf x \<or> is_inf y then
        (if is_zero x \<or> is_zero y then NaN else signed_inf (sign_bit x \<noteq> sign_bit y))
      else to_number (sign_bit x \<noteq> sign_bit y) (val x * val y))"

text \<open>\<^verbatim>\<open>x / y\<close>\<close>

definition js_div :: "number \<Rightarrow> number \<Rightarrow> number" where
  "js_div x y =
     (if x = NaN \<or> y = NaN then NaN
      else if is_inf x then
        (if is_inf y then NaN else signed_inf (sign_bit x \<noteq> sign_bit y))
      else if is_inf y then signed_zero (sign_bit x \<noteq> sign_bit y)
      else if is_zero y then
        (if is_zero x then NaN else signed_inf (sign_bit x \<noteq> sign_bit y))
      else to_number (sign_bit x \<noteq> sign_bit y) (val x / val y))"

text \<open>\<^verbatim>\<open>x + y\<close>\<close>

definition js_add :: "number \<Rightarrow> number \<Rightarrow> number" where
  "js_add x y =
     (if x = NaN \<or> y = NaN then NaN
      else if is_inf x then (if is_inf y \<and> y \<noteq> x then NaN else x)
      else if is_inf y then y
      else if val x + val y = 0 then signed_zero (x = NegZero \<and> y = NegZero)
      else to_number (val x + val y < 0) (val x + val y))"

text \<open>\<^verbatim>\<open>x < y\<close>, \<^verbatim>\<open>x <= y\<close> and \<^verbatim>\<open>x === y\<close>: false as soon as a side is not a number.\<close>

definition js_lt :: "number \<Rightarrow> number \<Rightarrow> bool" where
  "js_lt x y =
     (x \<noteq> NaN \<and> y \<noteq> NaN \<and> (rank x < rank y \<or> (rank x = rank y \<and> val x < val y)))"

definition js_le :: "number \<Rightarrow> number \<Rightarrow> bool" where
  "js_le x y =
     (x \<noteq> NaN \<and> y \<noteq> NaN \<and> (rank x < rank y \<or> (rank x = rank y \<and> val x \<le> val y)))"

definition js_eq :: "number \<Rightarrow> number \<Rightarrow> bool" where
  "js_eq x y = (x \<noteq> NaN \<and> y \<noteq> NaN \<and> rank x = rank y \<and> val x = val y)"

text \<open>\<^verbatim>\<open>Math.floor(x)\<close>\<close>

fun Math_floor :: "number \<Rightarrow> number" where
  "Math_floor (Fin r) = Fin (of_int \<lfloor>r\<rfloor>)"
| "Math_floor x = x"

text \<open>\<^verbatim>\<open>Math.max(x, y)\<close>: positive zero is the larger of the two zeros.\<close>

definition Math_max :: "number \<Rightarrow> number \<Rightarrow> number" where
  "Math_max x y =
     (if x = NaN \<or> y = NaN then NaN
      else if js_lt x y then y
      else if js_lt y x then x
      else if x = NegZero then y else x)"



section \<open>Types of \<^verbatim>\<open>jito.service.ts\<close>\<close>

datatype TipPercentile = P50 | P75 | P95 | P99

definition TIP_ACCOUNTS :: "string list" where
  "TIP_ACCOUNTS =
    [''96gYZGLnJYVFmbjzopPSU6QiEV5fGqZNyN9nmNhvrZU5'',
     ''HFqU5x63VTqvQss8hp11i4wVV8bD44PvwucfZ2bU7gRe'',
     ''Cw8CFyM9FkoMi7K7Crf6HNQqf4uEMzpKw6QNghXLvLkY'',
     ''ADaUMid9yfUytqMBgopwjb2DTLSokTSzL1zt6iGPaS49'',
     ''DfXygSm4jCyNCybVYYK6DwvWqjKee8pbDmJGcLWNDXjh'',
     ''ADuUkR4vqLUMWXxW9gh6D6L8pMSawimctcNZ5pGwDcEt'',
     ''DttWaMuVvTiduZRnguLF7jNxTgiMBZ1hyAumKUiL2KRL'',
     ''3AVi9Tg9Uo68tJfuvoKvqKNWKkC5wPdSSdeBnizKZ6jT'']"

datatype encoding = Base64 | Base58

record SendTransactionParams =
  transaction :: string
  encoding :: "encoding option"
  bundleOnly :: "bool option"

record TipFloorData =
  time :: string
  landed_tips_25th_percentile :: number
  landed_tips_50th_percentile :: number
  landed_tips_75th_percentile :: number
  landed_tips_95th_percentile :: number
  landed_tips_99th_percentile :: number
  ema_landed_tips_50th_percentile :: number

record FeeRecommendation =
  priorityFeeLamports :: number
  jitoTipLamports :: number
  totalFeeLamports :: number
  priorityFeeSol :: number
  jitoTipSol :: number
  totalFeeSol :: number

record SimulateBundleParams =
  encodedTransactions :: "string list"
  skipSigVerify :: "bool option"
  replaceRecentBlockhash :: "bool option"

section \<open>The network as an input\<close>

text \<open>
  The element of the \<^verbatim>\<open>params\<close> array of a \<^verbatim>\<open>simulateBundle\<close> request, with the
  defaults already filled in.
\<close>

record simulate_config =
  cfg_encodedTransactions :: "string list"
  cfg_skipSigVerify :: bool
  cfg_replaceRecentBlockhash :: bool

text \<open>The JSON-RPC envelope that \<^verbatim>\<open>simulateBundle\<close> serialises as the request body.\<close>

record rpc_body =
  jsonrpc :: string
  rpc_id :: string
  rpc_method :: string
  params :: "simulate_config list"

text \<open>
  A call of \<^verbatim>\<open>fetch\<close>: \<^verbatim>\<open>fetch(url)\<close> is a GET with no headers and no body.
\<close>

record http_request =
  url :: string
  http_method :: string
  headers :: "(string \<times> string) list"
  body :: "rpc_body option"

text \<open>
  What \<^verbatim>\<open>response.json()\<close> gives: it rejects on a body that is not JSON, and a JSON
  \<^verbatim>\<open>null\<close> passes the unchecked cast to the declared type.
\<close>

datatype 'a json_body = NotJson | JsonNull | Json 'a

record 'a http_response =
  ok :: bool
  status_code :: nat
  json :: "'a json_body"

text \<open>\<^verbatim>\<open>fetch\<close> either rejects (no answer at all) or resolves to a response.\<close>

datatype 'a fetch_outcome = Rejected | Resolved "'a http_response"

text \<open>
  The exceptions. The two \<^verbatim>\<open>Failed to ...\<close> messages carry the HTTP status.
  \<^item> \<open>FailedToFetchTipFloor s\<close>: \<^verbatim>\<open>Error("Failed to fetch tip floor: s")\<close>
  \<^item> \<open>NoTipFloorData\<close>: \<^verbatim>\<open>Error("No tip floor data available")\<close>
  \<^item> \<open>RpcEndpointRequired\<close>: \<^verbatim>\<open>Error("RPC endpoint is required for bundle simulation")\<close>
  \<^item> \<open>FailedToSimulateBundle s\<close>: \<^verbatim>\<open>Error("Failed to simulate bundle: s")\<close>
  \<^item> \<open>FetchRejected\<close>, \<open>JsonSyntaxError\<close>: the rejections of \<^verbatim>\<open>fetch\<close> and of
    \<^verbatim>\<open>response.json()\<close>, which the service lets through.
\<close>

datatype error =
    FailedToFetchTipFloor nat
  | NoTipFloorData
  | RpcEndpointRequired
  | FailedToSimulateBundle nat
  | FetchRejected
  | JsonSyntaxError

section \<open>\<^verbatim>\<open>sendTransaction\<close>\<close>

datatype send_param = TransactionArg string | EncodingArg encoding

text \<open>
  \<^verbatim>\<open>sendTxn\<close> is inherited from the RPC client library; it is a parameter here, and the
  model hands it exactly the two arguments the method builds.
\<close>

definition sendTransaction ::
  "(send_param list \<Rightarrow> bool \<Rightarrow> 'r) \<Rightarrow> SendTransactionParams \<Rightarrow> 'r" where
  "sendTransaction sendTxn p =
     (let transaction' = transaction p;
          encoding' = (case encoding p of None \<Rightarrow> Base64 | Some e \<Rightarrow> e);
          bundleOnly' = (case bundleOnly p of None \<Rightarrow> False | Some b \<Rightarrow> b);
          sendParams =
            (if encoding' = Base64
             then [TransactionArg transaction', EncodingArg Base64]
             else [TransactionArg transaction'])
      in sendTxn sendParams bundleOnly')"

section \<open>\<^verbatim>\<open>getTipFloor\<close>\<close>

definition tip_floor_request :: http_request where
  "tip_floor_request =
     \<lparr>url = ''https://bundles.jito.wtf/api/v1/bundles/tip_floor'',
      http_method = ''GET'', headers = [], body = None\<rparr>"

text \<open>
  The method makes one call, \<^verbatim>\<open>fetch(url)\<close> with the request above; \<open>fetched\<close> is the
  outcome of that call. The result is the parsed body; \<open>None\<close> is a JSON \<^verbatim>\<open>null\<close>.
\<close>

definition getTipFloor ::
  "TipFloorData list fetch_outcome \<Rightarrow> error + TipFloorData list option" where
  "getTipFloor fetched =
     (case fetched of
        Rejected \<Rightarrow> Inl FetchRejected
      | Resolved response \<Rightarrow>
          if \<not> ok response then Inl (FailedToFetchTipFloor (status_code response))
          else (case json response of
                  NotJson \<Rightarrow> Inl JsonSyntaxError
                | JsonNull \<Rightarrow> Inr None
                | Json tipFloor \<Rightarrow> Inr (Some tipFloor)))"

section \<open>\<^verbatim>\<open>calculateRecommendedFees\<close>\<close>

definition LAMPORTS_PER_SOL :: number where
  "LAMPORTS_PER_SOL = num_lit 1000000000"

definition MIN_TIP_LAMPORTS :: number where
  "MIN_TIP_LAMPORTS = num_lit 1000"

definition calculateRecommendedFees :: "number \<Rightarrow> FeeRecommendation" where
  "calculateRecommendedFees totalFeeSol' =
     (let totalFeeLamports' = js_mul totalFeeSol' LAMPORTS_PER_SOL;
          priorityFeeLamports' = Math_floor (js_mul totalFeeLamports' (num_lit (7 / 10)));
          jitoTipLamports' =
            Math_max (Math_floor (js_mul totalFeeLamports' (num_lit (3 / 10)))) MIN_TIP_LAMPORTS
      in \<lparr>priorityFeeLamports = priorityFeeLamports',
          jitoTipLamports = jitoTipLamports',
          totalFeeLamports = js_add priorityFeeLamports' jitoTipLamports',
          priorityFeeSol = js_div priorityFeeLamports' LAMPORTS_PER_SOL,
          jitoTipSol = js_div jitoTipLamports' LAMPORTS_PER_SOL,
          totalFeeSol = js_div (js_add priorityFeeLamports' jitoTipLamports') LAMPORTS_PER_SOL\<rparr>)"

section \<open>\<^verbatim>\<open>getRecommendedFeeFromTipFloor\<close>\<close>

text \<open>The \<^verbatim>\<open>switch\<close> over the percentile.\<close>

fun tipAmount :: "TipPercentile \<Rightarrow> TipFloorData \<Rightarrow> number" where
  "tipAmount P50 latestData = landed_tips_50th_percentile latestData"
| "tipAmount P75 latestData = landed_tips_75th_percentile latestData"
| "tipAmount P95 latestData = landed_tips_95th_percentile latestData"
| "tipAmount P99 latestData = landed_tips_99th_percentile latestData"

text \<open>A percentile that is not passed defaults to \<open>P75\<close>.\<close>

definition getRecommendedFeeFromTipFloor ::
  "TipFloorData list fetch_outcome \<Rightarrow> TipPercentile option \<Rightarrow> error + FeeRecommendation" where
  "getRecommendedFeeFromTipFloor fetched percentile =
     (let percentile' = (case percentile of None \<Rightarrow> P75 | Some p \<Rightarrow> p)
      in case getTipFloor fetched of
           Inl e \<Rightarrow> Inl e
         | Inr None \<Rightarrow> Inl NoTipFloorData
         | Inr (Some []) \<Rightarrow> Inl NoTipFloorData
         | Inr (Some (latestData # rest)) \<Rightarrow>
             let jitoTipSol' = tipAmount percentile' latestData;
                 totalFeeSol' = js_div jitoTipSol' (num_lit (3 / 10))
             in Inr (calculateRecommendedFees totalFeeSol'))"

section \<open>\<^verbatim>\<open>getRandomTipAccount\<close>\<close>

text \<open>
  \<^verbatim>\<open>xs[i]\<close> for a number \<open>i\<close>: the element when \<open>i\<close> is an integer index of the array
  (negative zero is the key \<^verbatim>\<open>"0"\<close>), and \<^verbatim>\<open>undefined\<close>, here \<open>None\<close>, otherwise.
\<close>

fun array_get :: "'a list \<Rightarrow> number \<Rightarrow> 'a option" where
  "array_get xs (Fin q) =
     (if q = of_int \<lfloor>q\<rfloor> \<and> 0 \<le> q \<and> nat \<lfloor>q\<rfloor> < length xs then Some (xs ! nat \<lfloor>q\<rfloor>) else None)"
| "array_get xs NegZero = (if xs = [] then None else Some (xs ! 0))"
| "array_get xs _ = None"

text \<open>The value \<open>random\<close> is what \<^verbatim>\<open>Math.random()\<close> returned.\<close>

definition getRandomTipAccount :: "number \<Rightarrow> string option" where
  "getRandomTipAccount random =
     (let randomIndex = Math_floor (js_mul random (Fin (of_nat (length TIP_ACCOUNTS))))
      in array_get TIP_ACCOUNTS randomIndex)"

section \<open>\<^verbatim>\<open>simulateBundle\<close>\<close>

text \<open>
  The model returns the list of \<^verbatim>\<open>fetch\<close> calls the method made together with its
  result; \<open>fetched\<close> is the outcome of the call when it is made.
  \<^verbatim>\<open>!rpcEndpoint\<close> holds for a missing argument and for the empty string.
\<close>

definition simulateBundle ::
  "'a fetch_outcome \<Rightarrow> SimulateBundleParams \<Rightarrow> string option
     \<Rightarrow> http_request list \<times> (error + 'a option)" where
  "simulateBundle fetched p rpcEndpoint =
     (let encodedTransactions' = encodedTransactions p;
          skipSigVerify' = (case skipSigVerify p of None \<Rightarrow> False | Some b \<Rightarrow> b);
          replaceRecentBlockhash' =
            (case replaceRecentBlockhash p of None \<Rightarrow> False | Some b \<Rightarrow> b)
      in case rpcEndpoint of
           None \<Rightarrow> ([], Inl RpcEndpointRequired)
         | Some rpcUrl \<Rightarrow>
             if rpcUrl = [] then ([], Inl RpcEndpointRequired)
             else
               let requestBody =
                     \<lparr>jsonrpc = ''2.0'', rpc_id = ''1'', rpc_method = ''simulateBundle'',
                      params = [\<lparr>cfg_encodedTransactions = encodedTransactions',
                                 cfg_skipSigVerify = skipSigVerify',
                                 cfg_replaceRecentBlockhash = replaceRecentBlockhash'\<rparr>]\<rparr>;
                   request =
                     \<lparr>url = rpcUrl, http_method = ''POST'',
                      headers = [(''Content-Type'', ''application/json'')],
                      body = Some requestBody\<rparr>
               in ([request],
                   case fetched of
                     Rejected \<Rightarrow> Inl FetchRejected
                   | Resolved response \<Rightarrow>
                       if \<not> ok response
                       then Inl (FailedToSimulateBundle (status_code response))
                       else (case json response of
                               NotJson \<Rightarrow> Inl JsonSyntaxError
                             | JsonNull \<Rightarrow> Inr None
                             | Json v \<Rightarrow> Inr (Some v))))"

section \<open>The status branches of \<^verbatim>\<open>testBundle\<close>\<close>





section \<open>Auxiliary notions\<close>

text \<open>The binary exponent that fixes the spacing around \<open>x\<close>.\<close>

definition bexp :: "rat \<Rightarrow> int" where
  "bexp x = max (ilog2 \<bar>x\<bar>) (- 1022)"

text \<open>The lamport fields as functions of the lamport amount.\<close>

definition priority_of :: "number \<Rightarrow> number" where
  "priority_of l = Math_floor (js_mul l (num_lit (7 / 10)))"

definition share_of :: "number \<Rightarrow> number" where
  "share_of l = Math_floor (js_mul l (num_lit (3 / 10)))"


section \<open>Properties of rounding to binary64\<close>

lemma pow2_pos: "0 < (2::rat) powi e"
  by (simp add: zero_less_power_int)

lemma ilog2_bounds:
  assumes "0 < x"
  shows "2 powi (ilog2 x) \<le> x \<and> x < 2 powi (ilog2 x + 1)"
proof (cases "1 \<le> x")
  case True
  define n where "n = \<lfloor>x\<rfloor>"
  have n1: "1 \<le> n" using True by (simp add: n_def le_floor_iff)
  then have n0: "0 < n" by simp
  have b1: "1 \<le> bitlen n" using n0 by (simp add: bitlen_alt_def)
  from bitlen_bounds[OF n0]
  have lo: "2 ^ nat (bitlen n - 1) \<le> n" and hi: "n < 2 ^ nat (bitlen n)" by auto
  have il: "ilog2 x = bitlen n - 1" using True by (simp add: ilog2_def n_def)
  have "(2::rat) powi (bitlen n - 1) = 2 ^ nat (bitlen n - 1)"
    using b1 by (simp add: power_int_nonneg_exp)
  also have "\<dots> = of_int (2 ^ nat (bitlen n - 1))" by simp
  also have "\<dots> \<le> of_int n" using lo by (simp only: of_int_le_iff)
  also have "\<dots> \<le> x" by (simp add: n_def)
  finally have A: "2 powi (ilog2 x) \<le> x" by (simp add: il)
  have "n + 1 \<le> 2 ^ nat (bitlen n)" using hi by simp
  then have "(of_int (n + 1) :: rat) \<le> of_int (2 ^ nat (bitlen n))" by (simp only: of_int_le_iff)
  moreover have "x < of_int (n + 1)" using floor_correct[of x] by (simp add: n_def)
  ultimately have "x < of_int (2 ^ nat (bitlen n))" by linarith
  also have "\<dots> = 2 powi (bitlen n)" using b1 by (simp add: power_int_nonneg_exp)
  finally have B: "x < 2 powi (ilog2 x + 1)" by (simp add: il)
  from A B show ?thesis ..
next
  case False
  then have x1: "x < 1" by simp
  define y where "y = 1 / x"
  have y1: "1 < y" using assms x1 by (simp add: y_def)
  define m where "m = \<lceil>y\<rceil> - 1"
  have m1: "1 \<le> m" using y1 by (simp add: m_def less_ceiling_iff)
  then have m0: "0 < m" by simp
  have my: "of_int m < y" using ceiling_correct[of y] by (simp add: m_def)
  have ym: "y \<le> of_int (m + 1)" by (simp add: m_def)
  define b where "b = bitlen m"
  from bitlen_bounds[OF m0]
  have lo: "2 ^ nat (b - 1) \<le> m" and hi: "m < 2 ^ nat b" by (auto simp: b_def)
  have b1: "1 \<le> b" using m0 bitlen_eq_zero_iff[of m] bitlen_nonneg[of m] by (simp add: b_def)
  have il: "ilog2 x = - b" using False by (simp add: ilog2_def b_def m_def y_def)
  have "m + 1 \<le> 2 ^ nat b" using hi by simp
  then have "(of_int (m + 1) :: rat) \<le> of_int (2 ^ nat b)" by (simp only: of_int_le_iff)
  with ym have "y \<le> 2 ^ nat b" by simp
  then have "1 / x \<le> 2 ^ nat b" by (simp add: y_def)
  then have "1 \<le> 2 ^ nat b * x" using assms by (simp add: field_simps)
  then have "1 / 2 ^ nat b \<le> x" by (simp add: field_simps)
  moreover have "(2::rat) powi (- b) = 1 / 2 ^ nat b"
    using b1 by (simp add: power_int_minus_divide power_int_nonneg_exp)
  ultimately have A: "2 powi (ilog2 x) \<le> x" by (simp add: il)
  have "(of_int (2 ^ nat (b - 1)) :: rat) \<le> of_int m" using lo by (simp only: of_int_le_iff)
  then have "(2::rat) ^ nat (b - 1) \<le> of_int m" by simp
  with my have "2 ^ nat (b - 1) < y" by linarith
  then have "2 ^ nat (b - 1) < 1 / x" by (simp add: y_def)
  then have "2 ^ nat (b - 1) * x < 1" using assms by (simp add: field_simps)
  then have "x < 1 / 2 ^ nat (b - 1)" by (simp add: field_simps)
  moreover have "(2::rat) powi (- b + 1) = 1 / 2 ^ nat (b - 1)"
  proof -
    have "(2::rat) powi (- b + 1) = 2 powi (- (b - 1))" by simp
    also have "\<dots> = 1 / 2 powi (b - 1)" by (rule power_int_minus_divide)
    also have "\<dots> = 1 / 2 ^ nat (b - 1)" using b1 by (simp add: power_int_nonneg_exp)
    finally show ?thesis .
  qed
  ultimately have B: "x < 2 powi (ilog2 x + 1)" by (simp add: il)
  from A B show ?thesis ..
qed

lemma ilog2_unique:
  assumes "0 < x" "2 powi e \<le> x" "x < 2 powi (e + 1)"
  shows "ilog2 x = e"
proof (rule ccontr)
  assume ne: "ilog2 x \<noteq> e"
  from ilog2_bounds[OF assms(1)]
  have lo: "2 powi (ilog2 x) \<le> x" and hi: "x < 2 powi (ilog2 x + 1)" by auto
  show False
  proof (cases "ilog2 x < e")
    case True
    then have "ilog2 x + 1 \<le> e" by simp
    then have "(2::rat) powi (ilog2 x + 1) \<le> 2 powi e" by (intro power_int_increasing) auto
    with hi assms(2) show False by linarith
  next
    case False
    with ne have "e + 1 \<le> ilog2 x" by simp
    then have "(2::rat) powi (e + 1) \<le> 2 powi (ilog2 x)" by (intro power_int_increasing) auto
    with lo assms(3) show False by linarith
  qed
qed

lemma round_half_even_near:
  assumes "\<bar>y - of_int n\<bar> < 1 / 2"
  shows "round_half_even y = n"
proof (cases "of_int n \<le> y")
  case True
  then have "\<lfloor>y\<rfloor> = n" using assms by (intro floor_unique) auto
  then show ?thesis using assms True by (simp add: round_half_even_def Let_def)
next
  case False
  then have "\<lfloor>y\<rfloor> = n - 1" using assms by (intro floor_unique) auto
  then show ?thesis using assms False by (auto simp: round_half_even_def Let_def)
qed

lemma round_half_even_of_int [simp]: "round_half_even (of_int n) = n"
  by (rule round_half_even_near) simp

lemma round_half_even_cases:
  "round_half_even y = \<lfloor>y\<rfloor> \<or> round_half_even y = \<lfloor>y\<rfloor> + 1"
  by (simp add: round_half_even_def Let_def)

lemma round_half_even_lower: "of_int (round_half_even y) \<le> y + 1 / 2"
  by (auto simp: round_half_even_def Let_def not_less) linarith+

lemma round_half_even_upper: "y - 1 / 2 \<le> of_int (round_half_even y)"
  by (auto simp: round_half_even_def Let_def not_less) linarith+

lemma round_half_even_mono:
  assumes "x \<le> y"
  shows "round_half_even x \<le> round_half_even y"
proof -
  have fl: "\<lfloor>x\<rfloor> \<le> \<lfloor>y\<rfloor>" using assms by (rule floor_mono)
  show ?thesis
  proof (cases "\<lfloor>x\<rfloor> = \<lfloor>y\<rfloor>")
    case True
    then show ?thesis using assms
      by (auto simp: round_half_even_def Let_def)
  next
    case False
    with fl have "\<lfloor>x\<rfloor> + 1 \<le> \<lfloor>y\<rfloor>" by simp
    moreover have "round_half_even x \<le> \<lfloor>x\<rfloor> + 1" using round_half_even_cases[of x] by auto
    moreover have "\<lfloor>y\<rfloor> \<le> round_half_even y" using round_half_even_cases[of y] by auto
    ultimately show ?thesis by linarith
  qed
qed


lemma round_half_even_minus: "round_half_even (- y) = - round_half_even y"
proof (cases "y = of_int \<lfloor>y\<rfloor>")
  case True
  then obtain n where "y = of_int n" ..
  then have "- y = of_int (- n)" by simp
  then show ?thesis using \<open>y = of_int n\<close> by (simp only: round_half_even_of_int)
next
  case False
  then have lt: "of_int \<lfloor>y\<rfloor> < y" using of_int_floor_le[of y] by linarith
  have "\<lfloor>- y\<rfloor> = - \<lfloor>y\<rfloor> - 1"
    by (rule floor_unique) (use lt in \<open>auto simp: \<close>, linarith)
  then show ?thesis
    by (auto simp: round_half_even_def Let_def)
qed

lemma ulp_bexp: "ulp x = 2 powi (bexp x - 52)"
  by (simp add: ulp_def bexp_def)

lemma ulp_pos: "0 < ulp x"
  by (simp add: ulp_def pow2_pos)

lemma ulp_minus [simp]: "ulp (- x) = ulp x"
  by (simp add: ulp_def)

lemma round_binary64_alt: "round_binary64 x = of_int (round_half_even (x / ulp x)) * ulp x"
  using round_half_even_of_int[of 0] by (simp add: round_binary64_def del: round_half_even_of_int)

lemma round_binary64_zero [simp]: "round_binary64 0 = 0"
  by (simp add: round_binary64_def)

lemma round_binary64_minus: "round_binary64 (- x) = - round_binary64 x"
  by (simp add: round_binary64_alt round_half_even_minus)

lemma round_binary64_nonneg: "0 \<le> x \<Longrightarrow> 0 \<le> round_binary64 x"
proof -
  assume "0 \<le> x"
  then have "0 \<le> x / ulp x" using ulp_pos[of x] by simp
  then have "round_half_even 0 \<le> round_half_even (x / ulp x)" by (rule round_half_even_mono)
  then have "0 \<le> round_half_even (x / ulp x)" using round_half_even_of_int[of 0] by simp
  then show ?thesis using ulp_pos[of x] by (simp add: round_binary64_alt)
qed

lemma round_binary64_fix:
  assumes "x = of_int n * ulp x"
  shows "round_binary64 x = x"
proof -
  have "x / ulp x = of_int n" using assms ulp_pos[of x] by (simp add: field_simps)
  then show ?thesis using assms by (simp add: round_binary64_alt)
qed

lemma ilog2_mono:
  assumes "0 < x" "x \<le> y"
  shows "ilog2 x \<le> ilog2 y"
proof (rule ccontr)
  assume "\<not> ilog2 x \<le> ilog2 y"
  then have "ilog2 y + 1 \<le> ilog2 x" by simp
  then have "(2::rat) powi (ilog2 y + 1) \<le> 2 powi (ilog2 x)" by (intro power_int_increasing) auto
  moreover have "2 powi (ilog2 x) \<le> x" using ilog2_bounds[OF assms(1)] by simp
  moreover have "y < 2 powi (ilog2 y + 1)" using ilog2_bounds[of y] assms by simp
  ultimately show False using assms(2) by linarith
qed

lemma bexp_mono: "0 < x \<Longrightarrow> x \<le> y \<Longrightarrow> bexp x \<le> bexp y"
  using ilog2_mono[of x y] by (simp add: bexp_def)

lemma pow2_split: "(2::rat) powi (a + b) = 2 powi a * 2 powi b"
  by (rule power_int_add) simp

lemma round_binary64_upper:
  assumes "0 < x"
  shows "round_binary64 x \<le> 2 powi (bexp x + 1)"
proof -
  let ?u = "ulp x"
  have "x < 2 powi (ilog2 x + 1)" using ilog2_bounds[OF assms] by simp
  also have "\<dots> \<le> 2 powi (bexp x + 1)"
    using assms by (intro power_int_increasing) (auto simp: bexp_def)
  finally have xb: "x \<le> 2 powi (bexp x + 1)" by simp
  have "bexp x + 1 = 53 + (bexp x - 52)" by simp
  then have "(2::rat) powi (bexp x + 1) = 2 powi (53 + (bexp x - 52))" by (rule arg_cong)
  also have "\<dots> = 2 powi 53 * 2 powi (bexp x - 52)" by (rule pow2_split)
  finally have sp: "(2::rat) powi (bexp x + 1) = 2 powi 53 * ?u" by (simp only: ulp_bexp)
  have xb': "x \<le> 2 powi 53 * ?u" using xb by (simp only: sp)
  have "x / ?u \<le> 2 powi 53" using xb' ulp_pos[of x] by (simp only: pos_divide_le_eq)
  then have "x / ?u \<le> of_int (2 ^ 53)" by simp
  then have "round_half_even (x / ?u) \<le> round_half_even (of_int (2 ^ 53))"
    by (rule round_half_even_mono)
  then have "round_half_even (x / ?u) \<le> 2 ^ 53" by (simp only: round_half_even_of_int)
  then have "(of_int (round_half_even (x / ?u)) :: rat) \<le> of_int (2 ^ 53)"
    by (simp only: of_int_le_iff)
  then have "of_int (round_half_even (x / ?u)) * ?u \<le> 2 powi 53 * ?u"
    using ulp_pos[of x] by simp
  then show ?thesis by (simp add: round_binary64_alt sp)
qed

lemma round_binary64_lower:
  assumes "0 < x" "2 powi (bexp x) \<le> x"
  shows "2 powi (bexp x) \<le> round_binary64 x"
proof -
  let ?u = "ulp x"
  have "bexp x = 52 + (bexp x - 52)" by simp
  then have "(2::rat) powi (bexp x) = 2 powi (52 + (bexp x - 52))" by (rule arg_cong)
  also have "\<dots> = 2 powi 52 * 2 powi (bexp x - 52)" by (rule pow2_split)
  finally have sp: "(2::rat) powi (bexp x) = 2 powi 52 * ?u" by (simp only: ulp_bexp)
  have xb': "2 powi 52 * ?u \<le> x" using assms(2) by (simp only: sp)
  have "2 powi 52 \<le> x / ?u" using xb' ulp_pos[of x] by (simp only: pos_le_divide_eq)
  then have "of_int (2 ^ 52) \<le> x / ?u" by simp
  then have "round_half_even (of_int (2 ^ 52)) \<le> round_half_even (x / ?u)"
    by (rule round_half_even_mono)
  then have "2 ^ 52 \<le> round_half_even (x / ?u)" by (simp only: round_half_even_of_int)
  then have "(of_int (2 ^ 52) :: rat) \<le> of_int (round_half_even (x / ?u))"
    by (simp only: of_int_le_iff)
  then have "2 powi 52 * ?u \<le> of_int (round_half_even (x / ?u)) * ?u"
    using ulp_pos[of x] by simp
  then show ?thesis by (simp add: round_binary64_alt sp)
qed

lemma round_binary64_mono_pos:
  assumes "0 < x" "x \<le> y"
  shows "round_binary64 x \<le> round_binary64 y"
proof (cases "bexp x = bexp y")
  case True
  then have u: "ulp y = ulp x" by (simp add: ulp_bexp)
  have "x / ulp x \<le> y / ulp x" using assms ulp_pos[of x] by (simp add: divide_right_mono)
  then have "round_half_even (x / ulp x) \<le> round_half_even (y / ulp x)"
    by (rule round_half_even_mono)
  then have "(of_int (round_half_even (x / ulp x)) :: rat) \<le> of_int (round_half_even (y / ulp x))"
    by (simp only: of_int_le_iff)
  then show ?thesis using ulp_pos[of x] by (simp add: round_binary64_alt u)
next
  case False
  with bexp_mono[OF assms] have lt: "bexp x + 1 \<le> bexp y" by simp
  have y0: "0 < y" using assms by simp
  have "- 1022 \<le> bexp x" by (simp add: bexp_def)
  with lt have "bexp y = ilog2 \<bar>y\<bar>" by (simp add: bexp_def max_def split: if_splits)
  then have "2 powi (bexp y) \<le> y" using ilog2_bounds[OF y0] y0 by simp
  from round_binary64_lower[OF y0 this] have "2 powi (bexp y) \<le> round_binary64 y" .
  moreover have "(2::rat) powi (bexp x + 1) \<le> 2 powi (bexp y)"
    using lt by (intro power_int_increasing) auto
  moreover note round_binary64_upper[OF assms(1)]
  ultimately show ?thesis by linarith
qed

lemma round_binary64_mono:
  assumes "x \<le> y"
  shows "round_binary64 x \<le> round_binary64 y"
proof -
  consider "0 < x" | "x \<le> 0" "0 \<le> y" | "y < 0" by linarith
  then show ?thesis
  proof cases
    case 1
    then show ?thesis using assms by (rule round_binary64_mono_pos)
  next
    case 2
    have "0 \<le> round_binary64 (- x)" using 2 by (intro round_binary64_nonneg) simp
    then have "round_binary64 x \<le> 0" by (simp add: round_binary64_minus)
    moreover have "0 \<le> round_binary64 y" using 2 by (intro round_binary64_nonneg)
    ultimately show ?thesis by linarith
  next
    case 3
    then have "0 < - y" "- y \<le> - x" using assms by auto
    then have "round_binary64 (- y) \<le> round_binary64 (- x)" by (rule round_binary64_mono_pos)
    then show ?thesis by (simp add: round_binary64_minus)
  qed
qed

lemma ilog2_less:
  assumes "0 < x" "x < 2 powi e"
  shows "ilog2 x < e"
proof (rule ccontr)
  assume "\<not> ilog2 x < e"
  then have "(2::rat) powi e \<le> 2 powi (ilog2 x)" by (intro power_int_increasing) auto
  moreover have "2 powi (ilog2 x) \<le> x" using ilog2_bounds[OF assms(1)] by simp
  ultimately show False using assms(2) by linarith
qed

lemma pow2_diff_nat:
  assumes "b \<le> a"
  shows "(2::rat) powi a = of_int (2 ^ nat (a - b)) * 2 powi b"
proof -
  have "a = (a - b) + b" by simp
  then have "(2::rat) powi a = 2 powi ((a - b) + b)" by (rule arg_cong)
  also have "\<dots> = 2 powi (a - b) * 2 powi b" by (rule pow2_split)
  also have "(2::rat) powi (a - b) = 2 ^ nat (a - b)" using assms by (simp add: power_int_nonneg_exp)
  finally show ?thesis by simp
qed

text \<open>Every value \<open>m * 2 powi k\<close> with at most 53 bits and \<open>k \<ge> - 1074\<close> is left alone.\<close>

lemma round_binary64_repr:
  assumes "\<bar>m\<bar> \<le> 2 ^ 53" "- 1074 \<le> k"
  shows "round_binary64 (of_int m * 2 powi k) = of_int m * 2 powi k"
proof (cases "m = 0")
  case True
  then show ?thesis by (simp add: round_binary64_def)
next
  case False
  define x :: rat where "x = of_int m * 2 powi k"
  have ax: "\<bar>x\<bar> = of_int \<bar>m\<bar> * 2 powi k"
    using pow2_pos[of k] by (simp add: x_def abs_mult)
  have x0: "0 < \<bar>x\<bar>" using False pow2_pos[of k] by (simp add: x_def)
  have "(of_int \<bar>m\<bar> :: rat) \<le> of_int (2 ^ 53)" using assms(1) by (simp only: of_int_le_iff)
  then have "\<bar>x\<bar> \<le> of_int (2 ^ 53) * 2 powi k"
    using pow2_pos[of k] by (simp only: ax mult_le_cancel_right_pos)
  also have "\<dots> = 2 powi (53 + k)" using pow2_split[of 53 k] by simp
  finally have le: "\<bar>x\<bar> \<le> 2 powi (53 + k)" .
  show ?thesis
  proof (cases "\<bar>x\<bar> = 2 powi (53 + k)")
    case True
    have "2 powi (53 + k) \<le> \<bar>x\<bar>" using True by simp
    moreover have "\<bar>x\<bar> < 2 powi (53 + k + 1)"
      using True power_int_strict_increasing[of "53 + k" "53 + k + 1" "2::rat"] by simp
    ultimately have il: "ilog2 \<bar>x\<bar> = 53 + k" using x0 by (intro ilog2_unique) auto
    have u: "ulp x = 2 powi (1 + k)" using assms(2) by (simp add: ulp_def il)
    have p2: "(2::rat) powi (53 + k) = of_int (2 ^ 52) * 2 powi (1 + k)"
      using pow2_diff_nat[of "1 + k" "53 + k"] by simp
    have "x = of_int (2 ^ 52) * ulp x \<or> x = of_int (- (2 ^ 52)) * ulp x"
      using True by (simp only: p2 u) (auto simp: abs_if split: if_splits)
    then show ?thesis unfolding x_def[symmetric] using round_binary64_fix by blast
  next
    case False
    with le have "\<bar>x\<bar> < 2 powi (53 + k)" by simp
    from ilog2_less[OF x0 this] have "ilog2 \<bar>x\<bar> \<le> 52 + k" by simp
    then have "bexp x - 52 \<le> k" using assms(2) by (simp add: bexp_def)
    from pow2_diff_nat[OF this]
    have "(2::rat) powi k = of_int (2 ^ nat (k - (bexp x - 52))) * ulp x" by (simp only: ulp_bexp)
    then have "x = of_int (m * 2 ^ nat (k - (bexp x - 52))) * ulp x" by (simp add: x_def)
    then show ?thesis unfolding x_def[symmetric] by (rule round_binary64_fix)
  qed
qed

lemma round_binary64_of_int:
  assumes "\<bar>n\<bar> \<le> 2 ^ 53"
  shows "round_binary64 (of_int n) = of_int n"
  using round_binary64_repr[OF assms, of 0] by simp

lemma round_binary64_eval:
  assumes "0 < x" "2 powi e \<le> x" "x < 2 powi (e + 1)" "- 1022 \<le> e"
    and "\<bar>x / 2 powi (e - 52) - of_int n\<bar> < 1 / 2"
  shows "round_binary64 x = of_int n * 2 powi (e - 52)"
proof -
  have "ilog2 \<bar>x\<bar> = e" using assms(1-3) by (intro ilog2_unique) auto
  then have u: "ulp x = 2 powi (e - 52)" using assms(4) by (simp add: ulp_def)
  have "round_half_even (x / ulp x) = n" using assms(5) unfolding u by (rule round_half_even_near)
  then show ?thesis by (simp add: round_binary64_alt u)
qed

lemma to_number_Fin:
  assumes "round_binary64 x = r" "r \<noteq> 0" "\<bar>r\<bar> < 2 ^ 1024"
  shows "to_number s x = Fin r"
  using assms by (auto simp: to_number_def Let_def)

lemma to_number_eval:
  assumes "0 < x" "2 powi e \<le> x" "x < 2 powi (e + 1)" "- 1022 \<le> e" "e \<le> 1022"
    and "\<bar>x / 2 powi (e - 52) - of_int n\<bar> < 1 / 2"
    and "r = of_int n * 2 powi (e - 52)"
  shows "to_number s x = Fin r"
proof -
  have rb: "round_binary64 x = r" using assms by (simp add: round_binary64_eval)
  have be: "bexp x = e" using ilog2_unique[of "\<bar>x\<bar>" e] assms by (simp add: bexp_def)
  have "2 powi e \<le> r" using round_binary64_lower[of x] assms rb be by simp
  then have r0: "0 < r" using pow2_pos[of e] by linarith
  have "r \<le> 2 powi (e + 1)" using round_binary64_upper[of x] assms rb be by simp
  also have "\<dots> \<le> 2 powi 1023" using assms(5) by (intro power_int_increasing) auto
  also have "\<dots> < 2 ^ 1024" by simp
  finally have "\<bar>r\<bar> < 2 ^ 1024" using r0 by simp
  with rb r0 show ?thesis by (intro to_number_Fin) auto
qed

lemma to_number_of_int:
  assumes "\<bar>n\<bar> \<le> 2 ^ 53" "n \<noteq> 0"
  shows "to_number s (of_int n) = Fin (of_int n)"
proof -
  have "(of_int \<bar>n\<bar> :: rat) \<le> of_int (2 ^ 53)" using assms(1) by (simp only: of_int_le_iff)
  then have "\<bar>of_int n :: rat\<bar> < 2 ^ 1024" by simp
  then show ?thesis using assms round_binary64_of_int[OF assms(1)] by (intro to_number_Fin) auto
qed

lemma to_number_zero [simp]: "to_number s 0 = signed_zero s"
  by (simp add: to_number_def round_binary64_def signed_zero_def)

lemma LAMPORTS_PER_SOL_value: "LAMPORTS_PER_SOL = Fin 1000000000"
  using to_number_of_int[of 1000000000 False] by (simp add: LAMPORTS_PER_SOL_def num_lit_def)

lemma MIN_TIP_LAMPORTS_value: "MIN_TIP_LAMPORTS = Fin 1000"
  using to_number_of_int[of 1000 False] by (simp add: MIN_TIP_LAMPORTS_def num_lit_def)

lemma lit_0_7: "num_lit (7 / 10) = Fin (3152519739159347 / 4503599627370496)"
  unfolding num_lit_def
  by (rule to_number_eval[where e = "- 1" and n = 6305039478318694]) simp_all

lemma lit_0_3: "num_lit (3 / 10) = Fin (5404319552844595 / 18014398509481984)"
  unfolding num_lit_def
  by (rule to_number_eval[where e = "- 2" and n = 5404319552844595]) simp_all

lemma lit_0_0003: "num_lit (3 / 10000) = Fin (5534023222112865 / 18446744073709551616)"
  unfolding num_lit_def
  by (rule to_number_eval[where e = "- 12" and n = 5534023222112865]) simp_all

lemma lit_0_000003: "num_lit (3 / 1000000) = Fin (1770887431076117 / 590295810358705651712)"
  unfolding num_lit_def
  by (rule to_number_eval[where e = "- 19" and n = 7083549724304468]) simp_all

section \<open>Properties of the operators\<close>

lemma to_number_not_NaN [simp]: "to_number s x \<noteq> NaN"
  by (simp add: to_number_def Let_def)

lemma rank_to_number:
  "rank (to_number s x) =
     (if 2 ^ 1024 \<le> round_binary64 x then 1 else if round_binary64 x \<le> - (2 ^ 1024) then - 1 else 0)"
  by (simp add: to_number_def Let_def)

lemma val_to_number:
  "val (to_number s x) =
     (if 2 ^ 1024 \<le> round_binary64 x \<or> round_binary64 x \<le> - (2 ^ 1024) then 0
      else round_binary64 x)"
  by (simp add: to_number_def Let_def)

lemma to_number_mono:
  assumes "x \<le> y"
  shows "js_le (to_number s x) (to_number s' y)"
proof -
  have "round_binary64 x \<le> round_binary64 y" using assms by (rule round_binary64_mono)
  then show ?thesis
    by (simp add: js_le_def rank_to_number val_to_number)
qed

lemma js_le_refl: "x \<noteq> NaN \<Longrightarrow> js_le x x"
  by (simp add: js_le_def)

lemma js_le_trans: "js_le x y \<Longrightarrow> js_le y z \<Longrightarrow> js_le x z"
  by (auto simp: js_le_def)

lemma js_le_not_NaN: "js_le x y \<Longrightarrow> x \<noteq> NaN \<and> y \<noteq> NaN"
  by (simp add: js_le_def)

lemma js_mul_Fin_pos:
  assumes "0 < k"
  shows "js_mul x (Fin k) =
    (case x of NaN \<Rightarrow> NaN | PosInf \<Rightarrow> PosInf | NegInf \<Rightarrow> NegInf | NegZero \<Rightarrow> NegZero
     | Fin r \<Rightarrow> to_number (r < 0) (r * k))"
  using assms by (cases x) (auto simp: js_mul_def signed_inf_def signed_zero_def)

lemma js_div_Fin_pos:
  assumes "0 < k"
  shows "js_div x (Fin k) =
    (case x of NaN \<Rightarrow> NaN | PosInf \<Rightarrow> PosInf | NegInf \<Rightarrow> NegInf | NegZero \<Rightarrow> NegZero
     | Fin r \<Rightarrow> to_number (r < 0) (r / k))"
  using assms by (cases x) (auto simp: js_div_def signed_inf_def signed_zero_def)

lemma js_le_to_number_zero_left:
  "r \<le> 0 \<Longrightarrow> js_le (to_number s r) NegZero" "r \<le> 0 \<Longrightarrow> js_le (to_number s r) (Fin 0)"
  using to_number_mono[of r 0 s True] to_number_mono[of r 0 s False]
  by (simp_all add: signed_zero_def)

lemma js_le_to_number_zero_right:
  "0 \<le> r \<Longrightarrow> js_le NegZero (to_number s r)" "0 \<le> r \<Longrightarrow> js_le (Fin 0) (to_number s r)"
  using to_number_mono[of 0 r True s] to_number_mono[of 0 r False s]
  by (simp_all add: signed_zero_def)

lemma js_le_inf [simp]:
  "js_le x PosInf \<longleftrightarrow> x \<noteq> NaN" "js_le NegInf y \<longleftrightarrow> y \<noteq> NaN"
  by (cases x; simp add: js_le_def) (cases y; simp add: js_le_def)

lemma js_le_NaN [simp]: "\<not> js_le x NaN" "\<not> js_le NaN y"
  by (simp_all add: js_le_def)

lemma js_le_PosInf_left: "js_le PosInf y \<longleftrightarrow> y = PosInf"
  by (cases y) (simp_all add: js_le_def)

lemma js_le_NegInf_right: "js_le x NegInf \<longleftrightarrow> x = NegInf"
  by (cases x) (simp_all add: js_le_def)

lemma js_le_finite [simp]:
  "js_le (Fin a) (Fin b) \<longleftrightarrow> a \<le> b"
  "js_le NegZero (Fin b) \<longleftrightarrow> 0 \<le> b"
  "js_le (Fin a) NegZero \<longleftrightarrow> a \<le> 0"
  "js_le NegZero NegZero"
  by (simp_all add: js_le_def)

lemma js_mul_pos_mono:
  assumes "0 < k" "js_le x y"
  shows "js_le (js_mul x (Fin k)) (js_mul y (Fin k))"
proof (cases x)
  case NaN
  then show ?thesis using assms by (simp add: js_le_def)
next
  case PosInf
  then have "y = PosInf" using assms by (simp add: js_le_PosInf_left)
  then show ?thesis using PosInf assms by (simp add: js_mul_Fin_pos)
next
  case NegInf
  have "js_mul y (Fin k) \<noteq> NaN" using assms js_le_not_NaN[of x y]
    by (cases y) (simp_all add: js_mul_Fin_pos)
  then show ?thesis using NegInf assms by (simp add: js_mul_Fin_pos)
next
  case NegZero
  show ?thesis
  proof (cases y)
    case (Fin b)
    then have "0 \<le> b * k" using assms NegZero by simp
    then show ?thesis using Fin NegZero assms by (simp add: js_mul_Fin_pos js_le_to_number_zero_right)
  qed (use NegZero assms in \<open>simp_all add: js_mul_Fin_pos js_le_NegInf_right\<close>)
next
  case (Fin a)
  show ?thesis
  proof (cases y)
    case (Fin b)
    then have "a * k \<le> b * k" using assms \<open>x = Fin a\<close> by simp
    then show ?thesis using Fin \<open>x = Fin a\<close> assms by (simp add: js_mul_Fin_pos to_number_mono)
  next
    case NegZero
    then have "a * k \<le> 0" using assms Fin by (simp add: mult_le_0_iff)
    then show ?thesis using Fin NegZero assms by (simp add: js_mul_Fin_pos js_le_to_number_zero_left)
  qed (use Fin assms in \<open>simp_all add: js_mul_Fin_pos js_le_NegInf_right\<close>)
qed

lemma js_div_pos_mono:
  assumes "0 < k" "js_le x y"
  shows "js_le (js_div x (Fin k)) (js_div y (Fin k))"
proof (cases x)
  case NaN
  then show ?thesis using assms by (simp add: js_le_def)
next
  case PosInf
  then have "y = PosInf" using assms by (simp add: js_le_PosInf_left)
  then show ?thesis using PosInf assms by (simp add: js_div_Fin_pos)
next
  case NegInf
  have "js_div y (Fin k) \<noteq> NaN" using assms js_le_not_NaN[of x y]
    by (cases y) (simp_all add: js_div_Fin_pos)
  then show ?thesis using NegInf assms by (simp add: js_div_Fin_pos)
next
  case NegZero
  show ?thesis
  proof (cases y)
    case (Fin b)
    then have "0 \<le> b / k" using assms NegZero by simp
    then show ?thesis using Fin NegZero assms by (simp add: js_div_Fin_pos js_le_to_number_zero_right)
  qed (use NegZero assms in \<open>simp_all add: js_div_Fin_pos js_le_NegInf_right\<close>)
next
  case (Fin a)
  show ?thesis
  proof (cases y)
    case (Fin b)
    then have "a / k \<le> b / k" using assms \<open>x = Fin a\<close> by (simp add: divide_right_mono)
    then show ?thesis using Fin \<open>x = Fin a\<close> assms by (simp add: js_div_Fin_pos to_number_mono)
  next
    case NegZero
    then have "a / k \<le> 0" using assms Fin by (simp add: divide_le_0_iff)
    then show ?thesis using Fin NegZero assms by (simp add: js_div_Fin_pos js_le_to_number_zero_left)
  qed (use Fin assms in \<open>simp_all add: js_div_Fin_pos js_le_NegInf_right\<close>)
qed

lemma Math_floor_mono:
  assumes "js_le x y"
  shows "js_le (Math_floor x) (Math_floor y)"
  using assms
  by (cases x; cases y) (simp_all add: js_le_NegInf_right js_le_PosInf_left floor_mono)

lemma Math_max_mono:
  assumes "js_le x y" "z \<noteq> NaN"
  shows "js_le (Math_max x z) (Math_max y z)"
  using assms
  by (cases x; cases y; cases z) (auto simp: Math_max_def js_le_def js_lt_def)

lemma js_add_not_NaN:
  assumes "x \<noteq> NaN" "u \<noteq> NaN" "x \<noteq> NegInf" "u \<noteq> NegInf"
  shows "js_add x u \<noteq> NaN"
  using assms by (cases x; cases u) (simp_all add: js_add_def signed_zero_def)

lemma js_add_PosInf:
  assumes "x \<noteq> NaN" "u \<noteq> NaN" "x \<noteq> NegInf" "u \<noteq> NegInf" "x = PosInf \<or> u = PosInf"
  shows "js_add x u = PosInf"
  using assms by (cases x; cases u) (simp_all add: js_add_def)

lemma js_add_finite:
  assumes "x \<noteq> NaN" "u \<noteq> NaN" "rank x = 0" "rank u = 0"
  shows "js_add x u \<noteq> NaN"
    and "rank (js_add x u) = rank (to_number False (val x + val u))"
    and "val (js_add x u) = val (to_number False (val x + val u))"
proof -
  have "\<not> is_inf x" using assms by (cases x) simp_all
  moreover have "\<not> is_inf u" using assms by (cases u) simp_all
  ultimately have i: "\<not> is_inf x" "\<not> is_inf u" by blast+
  show "js_add x u \<noteq> NaN" using assms i by (simp add: js_add_def signed_zero_def)
  show "rank (js_add x u) = rank (to_number False (val x + val u))"
    using assms i by (simp add: js_add_def signed_zero_def rank_to_number)
  show "val (js_add x u) = val (to_number False (val x + val u))"
    using assms i by (simp add: js_add_def signed_zero_def val_to_number)
qed

lemma rank_cases: "rank x = 0 \<or> x = PosInf \<or> x = NegInf"
  by (cases x) simp_all

lemma js_add_mono:
  assumes "js_le x y" "js_le u v" "x \<noteq> NegInf" "u \<noteq> NegInf"
  shows "js_le (js_add x u) (js_add y v)"
proof -
  have nn: "x \<noteq> NaN" "y \<noteq> NaN" "u \<noteq> NaN" "v \<noteq> NaN"
    using assms js_le_not_NaN by blast+
  have yv: "y \<noteq> NegInf" "v \<noteq> NegInf"
    using assms by (auto simp: js_le_NegInf_right)
  show ?thesis
  proof (cases "y = PosInf \<or> v = PosInf")
    case True
    then have "js_add y v = PosInf" using nn yv by (intro js_add_PosInf) auto
    moreover have "js_add x u \<noteq> NaN" using nn assms by (intro js_add_not_NaN) auto
    ultimately show ?thesis by simp
  next
    case False
    then have ry: "rank y = 0" "rank v = 0" using yv rank_cases[of y] rank_cases[of v] by auto
    have "x \<noteq> PosInf" "u \<noteq> PosInf" using assms False by (auto simp: js_le_PosInf_left)
    then have rx: "rank x = 0" "rank u = 0"
      using assms rank_cases[of x] rank_cases[of u] by auto
    have "val x \<le> val y" "val u \<le> val v" using assms rx ry by (auto simp: js_le_def)
    then have "val x + val u \<le> val y + val v" by simp
    then have "js_le (to_number False (val x + val u)) (to_number False (val y + val v))"
      by (rule to_number_mono)
    then show ?thesis
      using js_add_finite[OF nn(1) nn(3) rx] js_add_finite[OF nn(2) nn(4) ry]
      by (simp add: js_le_def)
  qed
qed

lemma js_mul_eval:
  assumes "0 < a" "0 < b" "2 powi e \<le> a * b" "a * b < 2 powi (e + 1)" "- 1022 \<le> e" "e \<le> 1022"
    and "\<bar>a * b / 2 powi (e - 52) - of_int n\<bar> < 1 / 2"
    and "r = of_int n * 2 powi (e - 52)"
  shows "js_mul (Fin a) (Fin b) = Fin r"
proof -
  have "to_number False (a * b) = Fin r"
    using assms by (intro to_number_eval[where e = e and n = n]) auto
  moreover have "\<not> a < 0" "\<not> b < 0" using assms(1,2) by auto
  ultimately show ?thesis by (simp add: js_mul_def)
qed

lemma js_div_eval:
  assumes "0 < a" "0 < b" "2 powi e \<le> a / b" "a / b < 2 powi (e + 1)" "- 1022 \<le> e" "e \<le> 1022"
    and "\<bar>a / b / 2 powi (e - 52) - of_int n\<bar> < 1 / 2"
    and "r = of_int n * 2 powi (e - 52)"
  shows "js_div (Fin a) (Fin b) = Fin r"
proof -
  have "to_number False (a / b) = Fin r"
    using assms by (intro to_number_eval[where e = e and n = n]) auto
  moreover have "\<not> a < 0" "\<not> b < 0" "b \<noteq> 0" using assms(1,2) by auto
  ultimately show ?thesis by (simp add: js_div_def)
qed

lemma js_add_of_int:
  assumes "\<bar>m + n\<bar> \<le> 2 ^ 53" "m + n \<noteq> 0"
  shows "js_add (Fin (of_int m)) (Fin (of_int n)) = Fin (of_int (m + n))"
proof -
  have "(of_int m :: rat) + of_int n = of_int (m + n)" by simp
  moreover have "(of_int (m + n) :: rat) \<noteq> 0" using assms(2) by (simp only: of_int_eq_0_iff) simp
  ultimately show ?thesis
    using to_number_of_int[OF assms] by (simp add: js_add_def)
qed

section \<open>Worked examples\<close>

text \<open>The example of three thousand lamports.\<close>

lemma ex_3000_total: "js_mul (num_lit (3 / 1000000)) LAMPORTS_PER_SOL = Fin 3000"
  unfolding lit_0_000003 LAMPORTS_PER_SOL_value
  by (rule js_mul_eval[where e = 11 and n = 6597069766656000]) simp_all

lemma ex_3000_priority: "js_mul (Fin 3000) (num_lit (7 / 10)) = Fin 2100"
  unfolding lit_0_7
  by (rule js_mul_eval[where e = 11 and n = 4617948836659200]) simp_all

lemma ex_3000_tip: "js_mul (Fin 3000) (num_lit (3 / 10)) = Fin 900"
  unfolding lit_0_3
  by (rule js_mul_eval[where e = 9 and n = 7916483719987200]) simp_all

lemma Math_max_900: "Math_max (Fin 900) (Fin 1000) = Fin 1000"
  by (simp add: Math_max_def js_lt_def)

lemma ex_3000_sum: "js_add (Fin 2100) (Fin 1000) = Fin 3100"
  using js_add_of_int[of 2100 1000] by simp

text \<open>The example of the 75th percentile at 0.0003.\<close>

lemma ex_p75_total:
  "js_div (num_lit (3 / 10000)) (num_lit (3 / 10)) = Fin (1152921504606847 / 1152921504606846976)"
  unfolding lit_0_0003 lit_0_3
  by (rule js_div_eval[where e = "- 10" and n = 4611686018427388]) simp_all

lemma ex_p75_lamports:
  "js_mul (Fin (1152921504606847 / 1152921504606846976)) LAMPORTS_PER_SOL = Fin 1000000"
  unfolding LAMPORTS_PER_SOL_value
  by (rule js_mul_eval[where e = 19 and n = 8589934592000000]) simp_all

lemma ex_p75_priority: "js_mul (Fin 1000000) (num_lit (7 / 10)) = Fin 700000"
  unfolding lit_0_7
  by (rule js_mul_eval[where e = 19 and n = 6012954214400000]) simp_all

lemma ex_p75_tip: "js_mul (Fin 1000000) (num_lit (3 / 10)) = Fin 300000"
  unfolding lit_0_3
  by (rule js_mul_eval[where e = 18 and n = 5153960755200000]) simp_all

lemma Math_max_300000: "Math_max (Fin 300000) (Fin 1000) = Fin 300000"
  by (simp add: Math_max_def js_lt_def)

lemma fees_p75_example:
  "priorityFeeLamports (calculateRecommendedFees (js_div (num_lit (3 / 10000)) (num_lit (3 / 10))))
     = Fin 700000"
  "jitoTipLamports (calculateRecommendedFees (js_div (num_lit (3 / 10000)) (num_lit (3 / 10))))
     = Fin 300000"
  by (simp_all add: calculateRecommendedFees_def Let_def ex_p75_total ex_p75_lamports
      ex_p75_priority ex_p75_tip Math_max_300000 MIN_TIP_LAMPORTS_value)

lemma fees_3000_example:
  "jitoTipLamports (calculateRecommendedFees (num_lit (3 / 1000000))) = Fin 1000"
  "totalFeeLamports (calculateRecommendedFees (num_lit (3 / 1000000))) = Fin 3100"
  by (simp_all add: calculateRecommendedFees_def Let_def ex_3000_total ex_3000_priority
      ex_3000_tip Math_max_900 ex_3000_sum MIN_TIP_LAMPORTS_value)

lemma js_mul_zero_pos: "0 < k \<Longrightarrow> js_mul (Fin 0) (Fin k) = Fin 0"
  by (simp add: js_mul_Fin_pos signed_zero_def)

lemma Math_max_zero_min: "Math_max (Fin 0) (Fin 1000) = Fin 1000"
  by (simp add: Math_max_def js_lt_def)

lemma priority_of_mono: "js_le l l' \<Longrightarrow> js_le (priority_of l) (priority_of l')"
  unfolding priority_of_def lit_0_7
  by (intro Math_floor_mono js_mul_pos_mono) simp_all

lemma share_of_mono: "js_le l l' \<Longrightarrow> js_le (share_of l) (share_of l')"
  unfolding share_of_def lit_0_3
  by (intro Math_floor_mono js_mul_pos_mono) simp_all

lemma priority_of_zero: "priority_of (Fin 0) = Fin 0"
  by (simp add: priority_of_def lit_0_7 js_mul_zero_pos)

lemma share_of_zero: "share_of (Fin 0) = Fin 0"
  by (simp add: share_of_def lit_0_3 js_mul_zero_pos)

lemma fees_unfold:
  "priorityFeeLamports (calculateRecommendedFees x) = priority_of (js_mul x (Fin 1000000000))"
  "jitoTipLamports (calculateRecommendedFees x) =
     Math_max (share_of (js_mul x (Fin 1000000000))) (Fin 1000)"
  "totalFeeLamports (calculateRecommendedFees x) =
     js_add (priority_of (js_mul x (Fin 1000000000)))
       (Math_max (share_of (js_mul x (Fin 1000000000))) (Fin 1000))"
  "priorityFeeSol (calculateRecommendedFees x) =
     js_div (priority_of (js_mul x (Fin 1000000000))) (Fin 1000000000)"
  "jitoTipSol (calculateRecommendedFees x) =
     js_div (Math_max (share_of (js_mul x (Fin 1000000000))) (Fin 1000)) (Fin 1000000000)"
  "totalFeeSol (calculateRecommendedFees x) =
     js_div (js_add (priority_of (js_mul x (Fin 1000000000)))
       (Math_max (share_of (js_mul x (Fin 1000000000))) (Fin 1000))) (Fin 1000000000)"
  by (simp_all add: calculateRecommendedFees_def Let_def priority_of_def share_of_def
      LAMPORTS_PER_SOL_value MIN_TIP_LAMPORTS_value)

lemma js_le_Fin_not_NegInf: "js_le (Fin c) x \<Longrightarrow> x \<noteq> NegInf"
  by (auto simp: js_le_NegInf_right)


section \<open>Lemmas for the random index\<close>

lemma ilog2_double:
  assumes "0 < x"
  shows "ilog2 (2 * x) = ilog2 x + 1"
proof (rule ilog2_unique)
  show "0 < 2 * x" using assms by simp
  have b: "2 powi (ilog2 x) \<le> x" "x < 2 powi (ilog2 x + 1)" using ilog2_bounds[OF assms] by auto
  have s: "(2::rat) powi (e + 1) = 2 powi e * 2" for e
    using pow2_split[of e 1] by simp
  show "2 powi (ilog2 x + 1) \<le> 2 * x" using b(1) by (simp add: s)
  have "(2::rat) powi (ilog2 x + 1 + 1) = 2 powi (ilog2 x + 1) * 2" by (rule s)
  then show "2 * x < 2 powi (ilog2 x + 1 + 1)" using b(2) by linarith
qed

text \<open>Doubling a binary64 value is exact (the exponent is unbounded above here).\<close>

lemma round_binary64_double:
  assumes "round_binary64 q = q"
  shows "round_binary64 (2 * q) = 2 * q"
proof (cases "q = 0")
  case True
  then show ?thesis by simp
next
  case False
  define m where "m = round_half_even (q / ulp q)"
  have q: "q = of_int m * ulp q" using assms by (simp add: round_binary64_alt m_def)
  have "ilog2 \<bar>2 * q\<bar> = ilog2 \<bar>q\<bar> + 1" using ilog2_double[of "\<bar>q\<bar>"] False by (simp add: abs_mult)
  then have be: "bexp (2 * q) = bexp q \<or> bexp (2 * q) = bexp q + 1"
    by (auto simp: bexp_def max_def)
  then show ?thesis
  proof
    assume "bexp (2 * q) = bexp q"
    then have "ulp (2 * q) = ulp q" by (simp add: ulp_bexp)
    then have "2 * q = of_int (2 * m) * ulp (2 * q)" using q by simp
    then show ?thesis by (rule round_binary64_fix)
  next
    assume e: "bexp (2 * q) = bexp q + 1"
    have "bexp q + 1 - 52 = 1 + (bexp q - 52)" by simp
    then have "(2::rat) powi (bexp q + 1 - 52) = 2 powi (1 + (bexp q - 52))" by (rule arg_cong)
    also have "\<dots> = 2 powi 1 * 2 powi (bexp q - 52)" by (rule pow2_split)
    finally have "ulp (2 * q) = 2 * ulp q" by (simp add: ulp_bexp e)
    then have "2 * q = of_int m * ulp (2 * q)" using q by simp
    then show ?thesis by (rule round_binary64_fix)
  qed
qed

lemma round_binary64_times_8:
  assumes "round_binary64 q = q"
  shows "round_binary64 (q * 8) = q * 8"
proof -
  have "round_binary64 (2 * (2 * (2 * q))) = 2 * (2 * (2 * q))"
    by (intro round_binary64_double assms)
  then show ?thesis by (simp add: mult.commute)
qed

lemma TIP_ACCOUNTS_length: "length TIP_ACCOUNTS = 8"
  by (simp add: TIP_ACCOUNTS_def)

lemma TIP_ACCOUNTS_distinct: "distinct TIP_ACCOUNTS"
  by (simp add: TIP_ACCOUNTS_def)

lemma randomIndex_exact:
  assumes "0 \<le> q" "q < 1" "round_binary64 q = q"
  shows "Math_floor (js_mul (Fin q) (Fin 8)) = Fin (of_int \<lfloor>q * 8\<rfloor>)"
proof -
  have rb: "round_binary64 (q * 8) = q * 8" using assms(3) by (rule round_binary64_times_8)
  have "js_mul (Fin q) (Fin 8) = to_number (q < 0) (q * 8)" by (simp add: js_mul_Fin_pos)
  also have "\<dots> = Fin (q * 8)"
  proof (cases "q = 0")
    case True
    then show ?thesis by (simp add: signed_zero_def)
  next
    case False
    have "\<bar>q * 8\<bar> < 2 ^ 1024" using assms(1,2) by simp
    then show ?thesis using rb False by (intro to_number_Fin) auto
  qed
  finally show ?thesis by simp
qed


section \<open>Lemmas for the minimum tip\<close>

lemma ilog2_ge:
  assumes "2 powi e \<le> x"
  shows "e \<le> ilog2 x"
proof (rule ccontr)
  assume "\<not> e \<le> ilog2 x"
  then have "ilog2 x + 1 \<le> e" by simp
  then have "(2::rat) powi (ilog2 x + 1) \<le> 2 powi e" by (intro power_int_increasing) auto
  moreover have "0 < x" using assms pow2_pos[of e] by linarith
  then have "x < 2 powi (ilog2 x + 1)" using ilog2_bounds by simp
  ultimately show False using assms by linarith
qed

lemma pow2_bexp: "(2::rat) powi (bexp x) = 2 ^ 52 * ulp x"
proof -
  have "bexp x = 52 + (bexp x - 52)" by simp
  then have "(2::rat) powi (bexp x) = 2 powi (52 + (bexp x - 52))" by (rule arg_cong)
  also have "\<dots> = 2 powi 52 * 2 powi (bexp x - 52)" by (rule pow2_split)
  finally show ?thesis by (simp add: ulp_bexp)
qed

text \<open>The rounding error is at most half a unit in the last place.\<close>

lemma round_binary64_error: "\<bar>round_binary64 z - z\<bar> \<le> ulp z / 2"
proof -
  define m where "m = round_half_even (z / ulp z)"
  have u: "0 < ulp z" by (rule ulp_pos)
  have "\<bar>of_int m - z / ulp z\<bar> \<le> 1 / 2"
    using round_half_even_lower[of "z / ulp z"] round_half_even_upper[of "z / ulp z"]
    unfolding m_def by linarith
  then have "\<bar>of_int m - z / ulp z\<bar> * ulp z \<le> 1 / 2 * ulp z"
    using u by (intro mult_right_mono) auto
  moreover have "(of_int m - z / ulp z) * ulp z = of_int m * ulp z - z"
    using u by (simp add: field_simps)
  then have "\<bar>of_int m * ulp z - z\<bar> = \<bar>of_int m - z / ulp z\<bar> * \<bar>ulp z\<bar>"
    by (simp only: abs_mult[symmetric])
  ultimately show ?thesis using u by (simp add: round_binary64_alt m_def)
qed

text \<open>In the normal range the error is at most \<open>2 ^ - 53\<close> of the value.\<close>

lemma round_binary64_rel_error:
  assumes "2 powi (- 1022) \<le> \<bar>z\<bar>"
  shows "\<bar>round_binary64 z - z\<bar> \<le> \<bar>z\<bar> / 2 ^ 53"
proof -
  have "- 1022 \<le> ilog2 \<bar>z\<bar>" using assms by (rule ilog2_ge)
  then have be: "bexp z = ilog2 \<bar>z\<bar>" by (simp add: bexp_def)
  have z0: "0 < \<bar>z\<bar>" using assms pow2_pos[of "- 1022"] by linarith
  have "2 powi (bexp z) \<le> \<bar>z\<bar>" using ilog2_bounds[OF z0] by (simp add: be)
  then have "2 ^ 52 * ulp z \<le> \<bar>z\<bar>" by (simp only: pow2_bexp)
  then have "ulp z / 2 \<le> \<bar>z\<bar> / 2 ^ 53" by simp
  with round_binary64_error[of z] show ?thesis by linarith
qed

lemma round_binary64_rel_neg:
  assumes "z \<le> - 1"
  shows "z + z / 2 ^ 53 \<le> round_binary64 z" "round_binary64 z \<le> z - z / 2 ^ 53"
proof -
  have "(2::rat) powi (- 1022) \<le> 2 powi 0" by (intro power_int_increasing) auto
  then have "2 powi (- 1022) \<le> \<bar>z\<bar>" using assms by simp
  from round_binary64_rel_error[OF this] have "\<bar>round_binary64 z - z\<bar> \<le> - z / 2 ^ 53"
    using assms by simp
  then show "z + z / 2 ^ 53 \<le> round_binary64 z" "round_binary64 z \<le> z - z / 2 ^ 53"
    by linarith+
qed

text \<open>The largest finite binary64 value, and that no rounded value lies beyond it short of
  the overflow threshold.\<close>

lemma round_binary64_max_finite:
  "round_binary64 ((2 ^ 53 - 1) * 2 ^ 971) = (2 ^ 53 - 1) * 2 ^ 971"
  using round_binary64_repr[of "2 ^ 53 - 1" 971] by simp

lemma round_binary64_overflow: "round_binary64 (2 ^ 1024) = 2 ^ 1024"
  using round_binary64_repr[of 1 1024] by simp

lemma round_binary64_finite_ge:
  assumes "- (2 ^ 1024) < round_binary64 z"
  shows "- ((2 ^ 53 - 1) * 2 ^ 971) \<le> round_binary64 z"
proof (cases "- ((2 ^ 53 - 1) * 2 ^ 971) \<le> z")
  case True
  then have "round_binary64 (- ((2 ^ 53 - 1) * 2 ^ 971)) \<le> round_binary64 z"
    by (rule round_binary64_mono)
  then show ?thesis by (simp only: round_binary64_minus round_binary64_max_finite)
next
  case False
  define w where "w = - z"
  have w: "(2 ^ 53 - 1) * 2 ^ 971 < w" using False by (simp add: w_def)
  have rz: "round_binary64 z = - round_binary64 w" by (simp add: w_def round_binary64_minus)
  have wlt: "w < 2 ^ 1024"
  proof (rule ccontr)
    assume "\<not> w < 2 ^ 1024"
    then have "round_binary64 (2 ^ 1024) \<le> round_binary64 w" by (intro round_binary64_mono) simp
    then have "2 ^ 1024 \<le> round_binary64 w" by (simp only: round_binary64_overflow)
    then show False using assms unfolding rz by linarith
  qed
  have w0: "0 < w" using w by simp
  have "ilog2 \<bar>w\<bar> = 1023" using w wlt w0 by (intro ilog2_unique) simp_all
  then have u: "ulp w = 2 ^ 971" by (simp add: ulp_def)
  have f: "\<lfloor>w / 2 ^ 971\<rfloor> = 2 ^ 53 - 1"
    using w wlt by (intro floor_unique) (simp_all add: field_simps)
  define m where "m = round_half_even (w / 2 ^ 971)"
  have "m = \<lfloor>w / 2 ^ 971\<rfloor> \<or> m = \<lfloor>w / 2 ^ 971\<rfloor> + 1"
    unfolding m_def by (rule round_half_even_cases)
  then have mc: "m = 2 ^ 53 - 1 \<or> m = 2 ^ 53" by (simp only: f) simp
  have rw: "round_binary64 w = of_int m * 2 ^ 971" by (simp only: round_binary64_alt u m_def)
  from mc show ?thesis
  proof
    assume "m = 2 ^ 53 - 1"
    then have "round_binary64 w = (2 ^ 53 - 1) * 2 ^ 971" using rw by simp
    then show ?thesis by (simp add: rz)
  next
    assume "m = 2 ^ 53"
    then have "round_binary64 w = 2 ^ 1024" using rw by simp
    then show ?thesis using assms by (simp add: rz)
  qed
qed

lemma clamp_small:
  fixes n1 n2 :: int
  assumes "- (2 ^ 53 - 1000) \<le> n1" "n1 \<le> 2334" "n2 \<le> 999"
  shows "- (2 ^ 1024) < round_binary64 (of_int n1 + 1000)
       \<and> round_binary64 (of_int n1 + of_int n2) < round_binary64 (of_int n1 + 1000)"
proof -
  have "\<bar>n1 + 1000\<bar> \<le> 2 ^ 53" using assms(1,2) by simp
  then have "round_binary64 (of_int (n1 + 1000)) = of_int (n1 + 1000)"
    by (rule round_binary64_of_int)
  then have e1: "round_binary64 (of_int n1 + 1000) = of_int n1 + 1000" by simp
  have "\<bar>n1 + 999\<bar> \<le> 2 ^ 53" using assms(1,2) by simp
  then have "round_binary64 (of_int (n1 + 999)) = of_int (n1 + 999)"
    by (rule round_binary64_of_int)
  then have e2: "round_binary64 (of_int n1 + 999) = of_int n1 + 999" by simp
  have "(of_int n2 :: rat) \<le> of_int 999" using assms(3) by (simp only: of_int_le_iff)
  then have "(of_int n1 + of_int n2 :: rat) \<le> of_int n1 + 999" by simp
  then have "round_binary64 (of_int n1 + of_int n2) \<le> round_binary64 (of_int n1 + 999)"
    by (rule round_binary64_mono)
  then have t2: "round_binary64 (of_int n1 + of_int n2) < round_binary64 (of_int n1 + 1000)"
    using e1 e2 by linarith
  have "(of_int (- (2 ^ 53 - 1000)) :: rat) \<le> of_int n1"
    using assms(1) by (simp only: of_int_le_iff)
  then have "- (2 ^ 53) \<le> (of_int n1 + 1000 :: rat)" by simp
  moreover have "- (2 ^ 1024) < (- (2 ^ 53) :: rat)" by simp
  ultimately have "- (2 ^ 1024) < (of_int n1 + 1000 :: rat)" by (rule less_le_trans[rotated])
  then have "- (2 ^ 1024) < round_binary64 (of_int n1 + 1000)" by (simp only: e1)
  with t2 show ?thesis by simp
qed

lemma clamp_huge:
  fixes l :: rat and n1 n2 :: int
  assumes n1: "n1 = \<lfloor>round_binary64 (l * (3152519739159347 / 4503599627370496))\<rfloor>"
    and n2: "n2 = \<lfloor>round_binary64 (l * (5404319552844595 / 18014398509481984))\<rfloor>"
    and big: "n1 < - (2 ^ 53 - 1000)"
    and fin: "- (2 ^ 1024) < round_binary64 (l * (3152519739159347 / 4503599627370496))"
  shows "- (2 ^ 1024) < round_binary64 (of_int n1 + 1000)
       \<and> round_binary64 (of_int n1 + of_int n2) < round_binary64 (of_int n1 + 1000)"
proof -
  define a where "a = round_binary64 (l * (3152519739159347 / 4503599627370496))"
  define b where "b = round_binary64 (l * (5404319552844595 / 18014398509481984))"
  define z1 :: rat where "z1 = of_int n1 + of_int n2"
  define z2 :: rat where "z2 = of_int n1 + 1000"
  have fl1: "a < of_int n1 + 1" using floor_correct[of a] by (simp add: n1 a_def)
  have fl2: "of_int n2 \<le> b" by (simp add: n2 b_def)
  have "(of_int n1 :: rat) < of_int (- (2 ^ 53 - 1000))" using big by (simp only: of_int_less_iff)
  then have nb: "(of_int n1 :: rat) < - 9007199254739992" by simp
  have lk: "l * (3152519739159347 / 4503599627370496) \<le> - (2 ^ 52)"
  proof (rule ccontr)
    assume "\<not> l * (3152519739159347 / 4503599627370496) \<le> - (2 ^ 52)"
    then have "round_binary64 (of_int (- (2 ^ 52))) \<le> a"
      unfolding a_def by (intro round_binary64_mono) simp
    moreover have "round_binary64 (of_int (- (2 ^ 52))) = of_int (- (2 ^ 52))"
      by (rule round_binary64_of_int) simp
    ultimately have "- 4503599627370496 \<le> a" by simp
    with fl1 nb show False by linarith
  qed
  then have lk': "l * (3152519739159347 / 4503599627370496) \<le> - 1" by simp
  have lk3: "l * (5404319552844595 / 18014398509481984) \<le> - 1" using lk by simp
  have ra: "l * (3152519739159347 / 4503599627370496)
      + l * (3152519739159347 / 4503599627370496) / 2 ^ 53 \<le> a"
    unfolding a_def by (rule round_binary64_rel_neg(1)[OF lk'])
  have rb: "b \<le> l * (5404319552844595 / 18014398509481984)
      - l * (5404319552844595 / 18014398509481984) / 2 ^ 53"
    unfolding b_def by (rule round_binary64_rel_neg(2)[OF lk3])
  have z2n: "z2 \<le> - 1" using nb by (simp add: z2_def)
  have n2n: "(of_int n2 :: rat) \<le> 0" using fl2 rb lk3 by simp
  have z1n: "z1 \<le> - 1" using nb n2n by (simp add: z1_def)
  have r1: "round_binary64 z1 \<le> z1 - z1 / 2 ^ 53" by (rule round_binary64_rel_neg(2)[OF z1n])
  have r2: "z2 + z2 / 2 ^ 53 \<le> round_binary64 z2" by (rule round_binary64_rel_neg(1)[OF z2n])
  have "z1 - z1 / 2 ^ 53 < z2 + z2 / 2 ^ 53"
  proof -
    have l0: "l \<le> 0" using lk by simp
    have "l \<le> a" using ra l0 by simp
    then have x: "l - 1 < of_int n1" using fl1 by linarith
    have "b \<le> l / 4" using rb l0 by simp
    then have y: "of_int n2 \<le> l / 4" using fl2 by linarith
    have l52: "l \<le> - 4503599627370496" using lk by simp
    have e: "(2::rat) ^ 53 = 9007199254740992" by simp
    show ?thesis unfolding e using x y l52 z1_def z2_def by linarith
  qed
  with r1 r2 have t2: "round_binary64 z1 < round_binary64 z2" by linarith
  have "- ((2 ^ 53 - 1) * 2 ^ 971) \<le> a" using fin unfolding a_def by (rule round_binary64_finite_ge)
  then have "- ((2 ^ 53 - 1) * 2 ^ 971) \<le> z2" using fl1 unfolding z2_def by linarith
  then have "round_binary64 (- ((2 ^ 53 - 1) * 2 ^ 971)) \<le> round_binary64 z2"
    by (rule round_binary64_mono)
  then have "- ((2 ^ 53 - 1) * 2 ^ 971) \<le> round_binary64 z2"
    by (simp only: round_binary64_minus round_binary64_max_finite)
  moreover have "- (2 ^ 1024) < (- ((2 ^ 53 - 1) * 2 ^ 971) :: rat)" by simp
  ultimately have "- (2 ^ 1024) < round_binary64 z2" by linarith
  with t2 show ?thesis unfolding z1_def z2_def by simp
qed

lemma Math_floor_rank [simp]: "rank (Math_floor X) = rank X"
  by (cases X) simp_all

lemma Math_floor_val: "val (Math_floor X) = of_int \<lfloor>val X\<rfloor>"
  by (cases X) simp_all

lemma Math_floor_eq_NaN [simp]: "Math_floor X = NaN \<longleftrightarrow> X = NaN"
  by (cases X) simp_all

lemma Math_floor_eq_NegInf [simp]: "Math_floor X = NegInf \<longleftrightarrow> X = NegInf"
  by (cases X) simp_all

lemma Math_max_lt: "js_lt x y \<Longrightarrow> Math_max x y = y"
  by (simp add: Math_max_def js_lt_def)

lemma rank_NegInf_iff: "X \<noteq> NaN \<Longrightarrow> rank X = - 1 \<longleftrightarrow> X = NegInf"
  by (cases X) simp_all

lemma js_add_NegInf_right: "X \<noteq> NaN \<Longrightarrow> rank X = 0 \<Longrightarrow> js_add X NegInf = NegInf"
  by (cases X) (simp_all add: js_add_def)

lemma js_lt_via_to_number:
  assumes "X \<noteq> NaN" "Y \<noteq> NaN"
    and "rank X = rank (to_number s x)" "val X = val (to_number s x)"
    and "rank Y = rank (to_number s' y)" "val Y = val (to_number s' y)"
    and "round_binary64 x < round_binary64 y"
    and "- (2 ^ 1024) < round_binary64 y" "round_binary64 y < 2 ^ 1024"
  shows "js_lt X Y"
  using assms by (simp add: js_lt_def rank_to_number val_to_number)

lemma clamp_Fin:
  assumes H: "js_lt (share_of (Fin l)) (Fin 1000)" and PN: "priority_of (Fin l) \<noteq> NegInf"
  shows "js_lt (js_add (priority_of (Fin l)) (share_of (Fin l)))
               (js_add (priority_of (Fin l)) (Fin 1000))"
proof -
  define a where "a = round_binary64 (l * (3152519739159347 / 4503599627370496))"
  define b where "b = round_binary64 (l * (5404319552844595 / 18014398509481984))"
  define A where "A = to_number (l < 0) (l * (3152519739159347 / 4503599627370496))"
  define B where "B = to_number (l < 0) (l * (5404319552844595 / 18014398509481984))"
  define n1 where "n1 = \<lfloor>a\<rfloor>"
  define n2 where "n2 = \<lfloor>b\<rfloor>"
  let ?P = "priority_of (Fin l)" and ?S = "share_of (Fin l)"
  have P: "?P = Math_floor A" by (simp add: priority_of_def lit_0_7 js_mul_Fin_pos A_def)
  have S: "?S = Math_floor B" by (simp add: share_of_def lit_0_3 js_mul_Fin_pos B_def)
  have big: "(1000::rat) < 2 ^ 1024" "(3334::rat) < 2 ^ 1024" "- (2 ^ 1024) < (1000::rat)" by simp_all
  have rB: "rank B = (if 2 ^ 1024 \<le> b then 1 else if b \<le> - (2 ^ 1024) then - 1 else 0)"
    unfolding B_def b_def by (rule rank_to_number)
  have vB: "val B = (if 2 ^ 1024 \<le> b \<or> b \<le> - (2 ^ 1024) then 0 else b)"
    unfolding B_def b_def by (rule val_to_number)
  have rA: "rank A = (if 2 ^ 1024 \<le> a then 1 else if a \<le> - (2 ^ 1024) then - 1 else 0)"
    unfolding A_def a_def by (rule rank_to_number)
  have vA: "val A = (if 2 ^ 1024 \<le> a \<or> a \<le> - (2 ^ 1024) then 0 else a)"
    unfolding A_def a_def by (rule val_to_number)
  have An: "A \<noteq> NaN" and Bn: "B \<noteq> NaN" by (simp_all add: A_def B_def)
  have Hs: "rank B < 0 \<or> (rank B = 0 \<and> \<lfloor>val B\<rfloor> < 1000)"
    using H by (simp add: S js_lt_def Math_floor_val)
  have b1000: "b < 1000"
  proof (cases "b \<le> - (2 ^ 1024)")
    case True
    with big(3) show ?thesis by linarith
  next
    case False
    show ?thesis
    proof (cases "2 ^ 1024 \<le> b")
      case True
      then have "rank B = 1" by (simp only: rB if_True)
      with Hs show ?thesis by simp
    next
      case F2: False
      have "rank B = 0" "val B = b" using False F2 by (simp_all only: rB vB if_False simp_thms)
      with Hs have "\<lfloor>b\<rfloor> < 1000" by simp
      then show ?thesis by (simp add: floor_less_iff)
    qed
  qed
  have lk3: "l * (5404319552844595 / 18014398509481984) < 1000"
  proof (rule ccontr)
    assume "\<not> l * (5404319552844595 / 18014398509481984) < 1000"
    then have "round_binary64 (of_int 1000) \<le> b"
      unfolding b_def by (intro round_binary64_mono) simp
    moreover have "round_binary64 (of_int 1000) = of_int 1000"
      by (rule round_binary64_of_int) simp
    ultimately show False using b1000 by simp
  qed
  then have lk7: "l * (3152519739159347 / 4503599627370496) \<le> 2334" by simp
  then have "a \<le> round_binary64 (of_int 2334)"
    unfolding a_def by (intro round_binary64_mono) simp
  moreover have "round_binary64 (of_int 2334) = of_int 2334"
    by (rule round_binary64_of_int) simp
  ultimately have a_le: "a \<le> 2334" by simp
  then have a_lt: "\<not> 2 ^ 1024 \<le> a" using big(2) by linarith
  have "A \<noteq> NegInf" using PN by (simp add: P)
  then have "rank A \<noteq> - 1" using An by (simp add: rank_NegInf_iff)
  then have a_gt: "\<not> a \<le> - (2 ^ 1024)" using a_lt by (simp only: rA if_False split: if_splits) simp
  have A0: "rank A = 0" "val A = a" using a_lt a_gt by (simp_all only: rA vA if_False simp_thms)
  have Pn: "?P \<noteq> NaN" and Pr: "rank ?P = 0" and Pv: "val ?P = of_int n1"
    using An A0 by (simp_all add: P Math_floor_val n1_def)
  have n1_le: "n1 \<le> 2334" using a_le by (simp add: n1_def floor_le_iff)
  have n2_le: "n2 \<le> 999" using b1000 by (simp add: n2_def floor_less_iff)
  have core: "- (2 ^ 1024) < round_binary64 (of_int n1 + 1000)
      \<and> round_binary64 (of_int n1 + of_int n2) < round_binary64 (of_int n1 + 1000)"
  proof (cases "- (2 ^ 53 - 1000) \<le> n1")
    case True
    then show ?thesis using n1_le n2_le by (rule clamp_small)
  next
    case False
    then have "n1 < - (2 ^ 53 - 1000)" by simp
    moreover have "- (2 ^ 1024) < a" using a_gt by simp
    ultimately show ?thesis
      unfolding n1_def n2_def a_def b_def by (intro clamp_huge) auto
  qed
  have "(of_int n1 + 1000 :: rat) \<le> of_int 3334" using n1_le by simp
  then have "round_binary64 (of_int n1 + 1000) \<le> round_binary64 (of_int 3334)"
    by (rule round_binary64_mono)
  moreover have "round_binary64 (of_int 3334) = of_int 3334"
    by (rule round_binary64_of_int) simp
  ultimately have up: "round_binary64 (of_int n1 + 1000) < 2 ^ 1024" using big(2) by simp
  let ?T = "js_add ?P (Fin 1000)"
  have T: "?T \<noteq> NaN" "rank ?T = rank (to_number False (of_int n1 + 1000))"
    "val ?T = val (to_number False (of_int n1 + 1000))"
    using js_add_finite[of ?P "Fin 1000"] Pn Pr Pv by simp_all
  have Tr: "rank ?T = 0" using core up by (simp add: T(2) rank_to_number)
  show ?thesis
  proof (cases "b \<le> - (2 ^ 1024)")
    case True
    then have "rank B = - 1" using b1000 big(1) by (simp add: rB)
    then have "B = NegInf" using Bn by (simp add: rank_NegInf_iff)
    then have "js_add ?P ?S = NegInf" using Pn Pr by (simp add: S js_add_NegInf_right)
    then show ?thesis using T(1) Tr by (simp add: js_lt_def)
  next
    case False
    then have B0: "rank B = 0" "val B = b" using b1000 big(1) by (simp_all add: rB vB)
    have Sn: "?S \<noteq> NaN" and Sr: "rank ?S = 0" and Sv: "val ?S = of_int n2"
      using Bn B0 by (simp_all add: S Math_floor_val n2_def)
    let ?N = "js_add ?P ?S"
    have N: "?N \<noteq> NaN" "rank ?N = rank (to_number False (of_int n1 + of_int n2))"
      "val ?N = val (to_number False (of_int n1 + of_int n2))"
      using js_add_finite[of ?P ?S] Pn Pr Pv Sn Sr Sv by simp_all
    from N(1) T(1) N(2,3) T(2,3) show ?thesis
      using core up by (intro js_lt_via_to_number) auto
  qed
qed

lemma clamp_core:
  assumes H: "js_lt (share_of L) (Fin 1000)" and PN: "priority_of L \<noteq> NegInf"
  shows "js_lt (js_add (priority_of L) (share_of L)) (js_add (priority_of L) (Fin 1000))"
proof (cases L)
  case NaN
  then show ?thesis using H by (simp add: share_of_def js_mul_def js_lt_def)
next
  case PosInf
  then show ?thesis using H by (simp add: share_of_def lit_0_3 js_mul_Fin_pos js_lt_def)
next
  case NegInf
  then show ?thesis using PN by (simp add: priority_of_def lit_0_7 js_mul_Fin_pos)
next
  case NegZero
  have "priority_of NegZero = NegZero" by (simp add: priority_of_def lit_0_7 js_mul_Fin_pos)
  moreover have "share_of NegZero = NegZero" by (simp add: share_of_def lit_0_3 js_mul_Fin_pos)
  moreover have "js_add NegZero NegZero = NegZero" by (simp add: js_add_def signed_zero_def)
  moreover have "js_add NegZero (Fin 1000) = Fin 1000"
    using to_number_of_int[of 1000 False] by (simp add: js_add_def)
  ultimately show ?thesis using NegZero by (simp add: js_lt_def)
next
  case (Fin l)
  then show ?thesis using H PN by (simp add: clamp_Fin)
qed


text \<open>The example of 3333.2 lamports.\<close>

lemma lit_0_0000033332:
  "num_lit (8333 / 2500000000) = Fin (7870295980350551 / 2361183241434822606848)"
  unfolding num_lit_def
  by (rule to_number_eval[where e = "- 19" and n = 7870295980350551]) simp_all

lemma ex_3333_total:
  "js_mul (num_lit (8333 / 2500000000)) LAMPORTS_PER_SOL
     = Fin (7329784315405927 / 2199023255552)"
  unfolding lit_0_0000033332 LAMPORTS_PER_SOL_value
  by (rule js_mul_eval[where e = 11 and n = 7329784315405927]) simp_all

lemma ex_3333_priority:
  "js_mul (Fin (7329784315405927 / 2199023255552)) (num_lit (7 / 10))
     = Fin (5130849020784149 / 2199023255552)"
  unfolding lit_0_7
  by (rule js_mul_eval[where e = 11 and n = 5130849020784149]) simp_all

lemma ex_3333_tip:
  "js_mul (Fin (7329784315405927 / 2199023255552)) (num_lit (3 / 10))
     = Fin (1099467647310889 / 1099511627776)"
  unfolding lit_0_3
  by (rule js_mul_eval[where e = 9 and n = 8795741178487112]) simp_all

lemma ex_3333_floors:
  "\<lfloor>5130849020784149 / 2199023255552 :: rat\<rfloor> = 2333"
  "\<lfloor>1099467647310889 / 1099511627776 :: rat\<rfloor> = 999"
  by (rule floor_unique, simp, simp)+

lemma Math_max_999: "Math_max (Fin 999) (Fin 1000) = Fin 1000"
  by (simp add: Math_max_def js_lt_def)

lemma ex_3333_sum: "js_add (Fin 2333) (Fin 1000) = Fin 3333"
  using js_add_of_int[of 2333 1000] by simp

lemma fees_3333_example:
  "Math_floor (js_mul (js_mul (num_lit (8333 / 2500000000)) LAMPORTS_PER_SOL) (num_lit (3 / 10)))
     = Fin 999"
  "totalFeeLamports (calculateRecommendedFees (num_lit (8333 / 2500000000))) = Fin 3333"
  by (simp_all add: calculateRecommendedFees_def Let_def ex_3333_total ex_3333_priority
      ex_3333_tip ex_3333_floors Math_max_999 ex_3333_sum MIN_TIP_LAMPORTS_value)

text \<open>The input \<open>- Infinity\<close>.\<close>

lemma fees_NegInf_example:
  "Math_floor (js_mul (js_mul NegInf LAMPORTS_PER_SOL) (num_lit (3 / 10))) = NegInf"
  "priorityFeeLamports (calculateRecommendedFees NegInf) = NegInf"
  "jitoTipLamports (calculateRecommendedFees NegInf) = Fin 1000"
  "totalFeeLamports (calculateRecommendedFees NegInf) = NegInf"
  by (simp_all add: calculateRecommendedFees_def Let_def LAMPORTS_PER_SOL_value
      MIN_TIP_LAMPORTS_value lit_0_3 lit_0_7 js_mul_Fin_pos Math_max_def js_lt_def js_add_def)

lemma ex_3000_floor_tip:
  "Math_floor (js_mul (js_mul (num_lit (3 / 1000000)) LAMPORTS_PER_SOL) (num_lit (3 / 10)))
     = Fin 900"
  "priorityFeeLamports (calculateRecommendedFees (num_lit (3 / 1000000))) = Fin 2100"
  by (simp_all add: calculateRecommendedFees_def Let_def ex_3000_total ex_3000_priority
      ex_3000_tip)

lemma ex_3000_nominal: "js_add (Fin 2100) (Fin 900) = Fin 3000"
  using js_add_of_int[of 2100 900] by simp


section \<open>Lemmas for the total\<close>

lemma js_le_total: "x \<noteq> NaN \<Longrightarrow> y \<noteq> NaN \<Longrightarrow> js_le x y \<or> js_le y x"
  by (auto simp: js_le_def)

lemma js_mul_Fin_pos_not_NaN: "0 < k \<Longrightarrow> x \<noteq> NaN \<Longrightarrow> js_mul x (Fin k) \<noteq> NaN"
  by (cases x) (simp_all add: js_mul_Fin_pos)

lemma js_add_eq_NaN:
  assumes "x \<noteq> NaN" "y \<noteq> NaN" "js_add x y = NaN"
  shows "(x = PosInf \<and> y = NegInf) \<or> (x = NegInf \<and> y = PosInf)"
  using assms by (cases x; cases y) (auto simp: js_add_def signed_zero_def split: if_splits)

lemma js_eq_refl: "x \<noteq> NaN \<Longrightarrow> js_eq x x"
  by (simp add: js_eq_def)

text \<open>
  Unless the input is not a number, no field is, and the comparison \<^verbatim>\<open>===\<close> of the total
  with the sum of the two other lamport fields is true.
\<close>

lemma total_not_NaN:
  assumes "x \<noteq> NaN"
  shows "totalFeeLamports (calculateRecommendedFees x) \<noteq> NaN"
proof -
  define L where "L = js_mul x (Fin 1000000000)"
  have L: "L \<noteq> NaN" unfolding L_def using assms by (intro js_mul_Fin_pos_not_NaN) simp_all
  have P: "priority_of L \<noteq> NaN"
    unfolding priority_of_def lit_0_7 using L by (simp add: js_mul_Fin_pos_not_NaN)
  have S: "share_of L \<noteq> NaN"
    unfolding share_of_def lit_0_3 using L by (simp add: js_mul_Fin_pos_not_NaN)
  let ?t = "Math_max (share_of L) (Fin 1000)"
  have t: "?t \<noteq> NaN" "?t \<noteq> NegInf"
    using S by (cases "share_of L"; simp add: Math_max_def js_lt_def)+
  have "\<not> (priority_of L = NegInf \<and> ?t = PosInf)"
  proof
    assume a: "priority_of L = NegInf \<and> ?t = PosInf"
    from js_le_total[OF L, of "Fin 0"] show False
    proof
      assume "js_le L (Fin 0)"
      then have "js_le (share_of L) (share_of (Fin 0))" by (rule share_of_mono)
      then have "js_le (share_of L) (Fin 0)" by (simp only: share_of_zero)
      then have "?t = Fin 1000"
        by (cases "share_of L") (simp_all add: Math_max_def js_lt_def js_le_def)
      with a show False by simp
    next
      assume "js_le (Fin 0) L"
      then have "js_le (priority_of (Fin 0)) (priority_of L)" by (rule priority_of_mono)
      then have "js_le (Fin 0) (priority_of L)" by (simp only: priority_of_zero)
      with a show False by (simp add: js_le_NegInf_right)
    qed simp
  qed
  then have "js_add (priority_of L) ?t \<noteq> NaN"
    using js_add_eq_NaN[OF P t(1)] t(2) by blast
  then show ?thesis by (simp add: fees_unfold L_def)
qed

lemma total_js_eq:
  assumes "x \<noteq> NaN"
  shows "js_eq (totalFeeLamports (calculateRecommendedFees x))
               (js_add (priorityFeeLamports (calculateRecommendedFees x))
                       (jitoTipLamports (calculateRecommendedFees x)))"
proof -
  have "totalFeeLamports (calculateRecommendedFees x) =
     js_add (priorityFeeLamports (calculateRecommendedFees x))
            (jitoTipLamports (calculateRecommendedFees x))"
    by (simp add: calculateRecommendedFees_def Let_def)
  then show ?thesis using total_not_NaN[OF assms] js_eq_refl by metis
qed

lemma fees_NaN:
  "priorityFeeLamports (calculateRecommendedFees NaN) = NaN"
  "jitoTipLamports (calculateRecommendedFees NaN) = NaN"
  "totalFeeLamports (calculateRecommendedFees NaN) = NaN"
  by (simp_all add: calculateRecommendedFees_def Let_def js_mul_def Math_max_def js_add_def)

section \<open>Properties of the fee recommendation\<close>

text \<open>
  C1, as stated, at the input that is not a number: the three lamport fields are not
  numbers, and the comparison \<^verbatim>\<open>===\<close> of \<^verbatim>\<open>totalFeeLamports\<close> with
  \<^verbatim>\<open>priorityFeeLamports + jitoTipLamports\<close> is false.
\<close>

theorem total_is_recomputed_sum_counterexample:
  "priorityFeeLamports (calculateRecommendedFees NaN) = NaN
   \<and> jitoTipLamports (calculateRecommendedFees NaN) = NaN
   \<and> totalFeeLamports (calculateRecommendedFees NaN) = NaN
   \<and> \<not> js_eq (totalFeeLamports (calculateRecommendedFees NaN))
             (js_add (priorityFeeLamports (calculateRecommendedFees NaN))
                     (jitoTipLamports (calculateRecommendedFees NaN)))"
  by (simp add: fees_NaN js_eq_def)

text \<open>
  C1, amended. For every input that is a number (the infinities included), the comparison
  \<^verbatim>\<open>===\<close> of \<^verbatim>\<open>totalFeeLamports\<close> with the sum of \<^verbatim>\<open>priorityFeeLamports\<close> and
  \<^verbatim>\<open>jitoTipLamports\<close> is true, the two values taken after the minimum tip has been
  applied; for every input whatsoever the field holds the value of that sum. It is that
  sum and not the converted input: the input 0.000003 converts to 3000 lamports, its tip is
  raised from 900 to 1000, and the total is 3100.
\<close>

theorem total_is_recomputed_sum:
  "(totalFeeSol' \<noteq> NaN \<longrightarrow>
      js_eq (totalFeeLamports (calculateRecommendedFees totalFeeSol'))
            (js_add (priorityFeeLamports (calculateRecommendedFees totalFeeSol'))
                    (jitoTipLamports (calculateRecommendedFees totalFeeSol'))))
   \<and> totalFeeLamports (calculateRecommendedFees totalFeeSol') =
     js_add (priorityFeeLamports (calculateRecommendedFees totalFeeSol'))
            (jitoTipLamports (calculateRecommendedFees totalFeeSol'))
   \<and> js_mul (num_lit (3 / 1000000)) LAMPORTS_PER_SOL = Fin 3000
   \<and> jitoTipLamports (calculateRecommendedFees (num_lit (3 / 1000000))) = Fin 1000
   \<and> totalFeeLamports (calculateRecommendedFees (num_lit (3 / 1000000))) = Fin 3100"
proof -
  have "totalFeeLamports (calculateRecommendedFees totalFeeSol') =
     js_add (priorityFeeLamports (calculateRecommendedFees totalFeeSol'))
            (jitoTipLamports (calculateRecommendedFees totalFeeSol'))"
    by (simp add: calculateRecommendedFees_def Let_def)
  with total_js_eq[of totalFeeSol'] fees_3000_example ex_3000_total show ?thesis by blast
qed

theorem total_is_recomputed_sum_witness:
  "num_lit (3 / 1000000) \<noteq> NaN
   \<and> js_eq (totalFeeLamports (calculateRecommendedFees (num_lit (3 / 1000000))))
           (js_add (priorityFeeLamports (calculateRecommendedFees (num_lit (3 / 1000000))))
                   (jitoTipLamports (calculateRecommendedFees (num_lit (3 / 1000000)))))"
proof -
  have h: "num_lit (3 / 1000000) \<noteq> NaN" by (simp add: lit_0_000003)
  from total_is_recomputed_sum[of "num_lit (3 / 1000000)"] h show ?thesis by blast
qed


text \<open>
  C3. On a successful answer with at least one sample,
  \<^verbatim>\<open>getRecommendedFeeFromTipFloor\<close> reads the field of the requested percentile (the
  75th when none is requested) from the sample at index 0, takes it as the tip alone,
  divides it by 0.3 to get the total, and returns what \<^verbatim>\<open>calculateRecommendedFees\<close>
  gives for that total. With a 75th percentile of 0.0003 the priority fee is 700000
  lamports and the tip 300000 lamports.
\<close>

theorem getRecommendedFeeFromTipFloor_newest:
  "fetched = Resolved response \<and> ok response \<and> json response = Json (latestData # rest) \<longrightarrow>
     getRecommendedFeeFromTipFloor fetched percentile =
       Inr (calculateRecommendedFees
              (js_div (tipAmount (case percentile of None \<Rightarrow> P75 | Some p \<Rightarrow> p) latestData)
                      (num_lit (3 / 10))))
     \<and> tipAmount P50 latestData = landed_tips_50th_percentile latestData
     \<and> tipAmount P75 latestData = landed_tips_75th_percentile latestData
     \<and> tipAmount P95 latestData = landed_tips_95th_percentile latestData
     \<and> tipAmount P99 latestData = landed_tips_99th_percentile latestData
     \<and> (landed_tips_75th_percentile latestData = num_lit (3 / 10000)
          \<and> (percentile = None \<or> percentile = Some P75) \<longrightarrow>
        map_sum id priorityFeeLamports (getRecommendedFeeFromTipFloor fetched percentile)
          = Inr (Fin 700000)
        \<and> map_sum id jitoTipLamports (getRecommendedFeeFromTipFloor fetched percentile)
          = Inr (Fin 300000))"
  by (auto simp: getRecommendedFeeFromTipFloor_def getTipFloor_def Let_def fees_p75_example)

theorem getRecommendedFeeFromTipFloor_newest_witness:
  "getRecommendedFeeFromTipFloor
      (Resolved \<lparr>ok = True, status_code = 200,
         json = Json [\<lparr>time = ''2025-01-01T00:00:00Z'',
           landed_tips_25th_percentile = num_lit (1 / 10000),
           landed_tips_50th_percentile = num_lit (2 / 10000),
           landed_tips_75th_percentile = num_lit (3 / 10000),
           landed_tips_95th_percentile = num_lit (4 / 10000),
           landed_tips_99th_percentile = num_lit (5 / 10000),
           ema_landed_tips_50th_percentile = num_lit (2 / 10000)\<rparr>]\<rparr>) (Some P75)
     = Inr (calculateRecommendedFees (js_div (num_lit (3 / 10000)) (num_lit (3 / 10))))
   \<and> map_sum id priorityFeeLamports (getRecommendedFeeFromTipFloor
      (Resolved \<lparr>ok = True, status_code = 200,
         json = Json [\<lparr>time = ''2025-01-01T00:00:00Z'',
           landed_tips_25th_percentile = num_lit (1 / 10000),
           landed_tips_50th_percentile = num_lit (2 / 10000),
           landed_tips_75th_percentile = num_lit (3 / 10000),
           landed_tips_95th_percentile = num_lit (4 / 10000),
           landed_tips_99th_percentile = num_lit (5 / 10000),
           ema_landed_tips_50th_percentile = num_lit (2 / 10000)\<rparr>]\<rparr>) (Some P75)) = Inr (Fin 700000)
   \<and> map_sum id jitoTipLamports (getRecommendedFeeFromTipFloor
      (Resolved \<lparr>ok = True, status_code = 200,
         json = Json [\<lparr>time = ''2025-01-01T00:00:00Z'',
           landed_tips_25th_percentile = num_lit (1 / 10000),
           landed_tips_50th_percentile = num_lit (2 / 10000),
           landed_tips_75th_percentile = num_lit (3 / 10000),
           landed_tips_95th_percentile = num_lit (4 / 10000),
           landed_tips_99th_percentile = num_lit (5 / 10000),
           ema_landed_tips_50th_percentile = num_lit (2 / 10000)\<rparr>]\<rparr>) (Some P75)) = Inr (Fin 300000)"
  using getRecommendedFeeFromTipFloor_newest
    [of "Resolved \<lparr>ok = True, status_code = 200,
         json = Json [\<lparr>time = ''2025-01-01T00:00:00Z'',
           landed_tips_25th_percentile = num_lit (1 / 10000),
           landed_tips_50th_percentile = num_lit (2 / 10000),
           landed_tips_75th_percentile = num_lit (3 / 10000),
           landed_tips_95th_percentile = num_lit (4 / 10000),
           landed_tips_99th_percentile = num_lit (5 / 10000),
           ema_landed_tips_50th_percentile = num_lit (2 / 10000)\<rparr>]\<rparr>"
        "\<lparr>ok = True, status_code = 200,
         json = Json [\<lparr>time = ''2025-01-01T00:00:00Z'',
           landed_tips_25th_percentile = num_lit (1 / 10000),
           landed_tips_50th_percentile = num_lit (2 / 10000),
           landed_tips_75th_percentile = num_lit (3 / 10000),
           landed_tips_95th_percentile = num_lit (4 / 10000),
           landed_tips_99th_percentile = num_lit (5 / 10000),
           ema_landed_tips_50th_percentile = num_lit (2 / 10000)\<rparr>]\<rparr>"
        "\<lparr>time = ''2025-01-01T00:00:00Z'',
           landed_tips_25th_percentile = num_lit (1 / 10000),
           landed_tips_50th_percentile = num_lit (2 / 10000),
           landed_tips_75th_percentile = num_lit (3 / 10000),
           landed_tips_95th_percentile = num_lit (4 / 10000),
           landed_tips_99th_percentile = num_lit (5 / 10000),
           ema_landed_tips_50th_percentile = num_lit (2 / 10000)\<rparr>" "[]" "Some P75"]
  by (simp add: fees_p75_example)

text \<open>
  C10. \<^verbatim>\<open>calculateRecommendedFees\<close> is monotone on the inputs from zero on: for
  \<^verbatim>\<open>0 <= a <= b\<close>, each of the six fields for \<open>a\<close> is at most the field for \<open>b\<close>.
\<close>

theorem calculateRecommendedFees_monotone:
  assumes "js_le (Fin 0) a" "js_le a b"
  shows "js_le (priorityFeeLamports (calculateRecommendedFees a))
               (priorityFeeLamports (calculateRecommendedFees b))
       \<and> js_le (jitoTipLamports (calculateRecommendedFees a))
               (jitoTipLamports (calculateRecommendedFees b))
       \<and> js_le (totalFeeLamports (calculateRecommendedFees a))
               (totalFeeLamports (calculateRecommendedFees b))
       \<and> js_le (priorityFeeSol (calculateRecommendedFees a))
               (priorityFeeSol (calculateRecommendedFees b))
       \<and> js_le (jitoTipSol (calculateRecommendedFees a))
               (jitoTipSol (calculateRecommendedFees b))
       \<and> js_le (totalFeeSol (calculateRecommendedFees a))
               (totalFeeSol (calculateRecommendedFees b))"
proof -
  let ?la = "js_mul a (Fin 1000000000)" and ?lb = "js_mul b (Fin 1000000000)"
  let ?pa = "priority_of ?la" and ?pb = "priority_of ?lb"
  let ?ta = "Math_max (share_of ?la) (Fin 1000)" and ?tb = "Math_max (share_of ?lb) (Fin 1000)"
  have l: "js_le ?la ?lb" using assms(2) by (intro js_mul_pos_mono) simp_all
  have "js_le (js_mul (Fin 0) (Fin 1000000000)) ?la"
    using assms(1) by (intro js_mul_pos_mono) simp_all
  then have l0: "js_le (Fin 0) ?la" by (simp add: js_mul_zero_pos)
  have p: "js_le ?pa ?pb" using l by (rule priority_of_mono)
  have "js_le (priority_of (Fin 0)) ?pa" using l0 by (rule priority_of_mono)
  then have p0: "?pa \<noteq> NegInf" unfolding priority_of_zero by (rule js_le_Fin_not_NegInf)
  have t: "js_le ?ta ?tb" using l by (intro Math_max_mono share_of_mono) simp_all
  have "js_le (Math_max (share_of (Fin 0)) (Fin 1000)) ?ta"
    using l0 by (intro Math_max_mono share_of_mono) simp_all
  then have t0: "?ta \<noteq> NegInf"
    unfolding share_of_zero Math_max_zero_min by (rule js_le_Fin_not_NegInf)
  have s: "js_le (js_add ?pa ?ta) (js_add ?pb ?tb)" using p t p0 t0 by (rule js_add_mono)
  have "js_le (js_div ?pa (Fin 1000000000)) (js_div ?pb (Fin 1000000000))"
    using p by (intro js_div_pos_mono) simp_all
  moreover have "js_le (js_div ?ta (Fin 1000000000)) (js_div ?tb (Fin 1000000000))"
    using t by (intro js_div_pos_mono) simp_all
  moreover have "js_le (js_div (js_add ?pa ?ta) (Fin 1000000000))
                      (js_div (js_add ?pb ?tb) (Fin 1000000000))"
    using s by (intro js_div_pos_mono) simp_all
  ultimately show ?thesis using p t s by (simp only: fees_unfold)
qed

theorem calculateRecommendedFees_monotone_witness:
  "js_le (Fin 0) (num_lit (3 / 1000000))
   \<and> js_le (num_lit (3 / 1000000)) (js_div (num_lit (3 / 10000)) (num_lit (3 / 10)))
   \<and> js_le (Fin 1000) (Fin 300000)
   \<and> js_le (totalFeeLamports (calculateRecommendedFees (num_lit (3 / 1000000))))
        (totalFeeLamports (calculateRecommendedFees
           (js_div (num_lit (3 / 10000)) (num_lit (3 / 10)))))"
proof -
  have a: "js_le (Fin 0) (num_lit (3 / 1000000))" by (simp add: lit_0_000003)
  have b: "js_le (num_lit (3 / 1000000)) (js_div (num_lit (3 / 10000)) (num_lit (3 / 10)))"
    by (simp add: lit_0_000003 ex_p75_total)
  from calculateRecommendedFees_monotone[OF a b] a b show ?thesis
    by (simp add: fees_3000_example fees_p75_example)
qed

section \<open>Properties of the minimum tip\<close>

text \<open>
  C4, as stated, at two inputs. At \<open>- Infinity\<close> the floor of the 30% share is below 1000
  and the tip is 1000, but the total is \<open>- Infinity\<close>, the same as the total of the two
  floored shares: it does not exceed it. At 0.0000033332 (written \<open>8333 / 2500000000\<close>)
  the floor of the 30% share is 999 and the tip is 1000, but the total of 3333 lamports is
  below the converted input of about 3333.2 lamports: it does not exceed the requested
  total either.
\<close>

theorem minimum_tip_clamp_counterexample:
  "js_lt (Math_floor (js_mul (js_mul NegInf LAMPORTS_PER_SOL) (num_lit (3 / 10)))) (Fin 1000)
   \<and> jitoTipLamports (calculateRecommendedFees NegInf) = Fin 1000
   \<and> \<not> js_lt (js_add (priorityFeeLamports (calculateRecommendedFees NegInf))
               (Math_floor (js_mul (js_mul NegInf LAMPORTS_PER_SOL) (num_lit (3 / 10)))))
             (totalFeeLamports (calculateRecommendedFees NegInf))
   \<and> js_lt (Math_floor (js_mul (js_mul (num_lit (8333 / 2500000000)) LAMPORTS_PER_SOL)
              (num_lit (3 / 10)))) (Fin 1000)
   \<and> totalFeeLamports (calculateRecommendedFees (num_lit (8333 / 2500000000))) = Fin 3333
   \<and> js_lt (totalFeeLamports (calculateRecommendedFees (num_lit (8333 / 2500000000))))
           (js_mul (num_lit (8333 / 2500000000)) LAMPORTS_PER_SOL)"
proof -
  have 1: "js_lt (Math_floor (js_mul (js_mul NegInf LAMPORTS_PER_SOL) (num_lit (3 / 10))))
      (Fin 1000)"
    by (simp only: fees_NegInf_example(1)) (simp add: js_lt_def)
  have 3: "\<not> js_lt (js_add (priorityFeeLamports (calculateRecommendedFees NegInf))
               (Math_floor (js_mul (js_mul NegInf LAMPORTS_PER_SOL) (num_lit (3 / 10)))))
             (totalFeeLamports (calculateRecommendedFees NegInf))"
    by (simp only: fees_NegInf_example) (simp add: js_lt_def js_add_def)
  have 4: "js_lt (Math_floor (js_mul (js_mul (num_lit (8333 / 2500000000)) LAMPORTS_PER_SOL)
              (num_lit (3 / 10)))) (Fin 1000)"
    by (simp only: fees_3333_example(1)) (simp add: js_lt_def)
  have 6: "js_lt (totalFeeLamports (calculateRecommendedFees (num_lit (8333 / 2500000000))))
           (js_mul (num_lit (8333 / 2500000000)) LAMPORTS_PER_SOL)"
    by (simp only: fees_3333_example(2) ex_3333_total) (simp add: js_lt_def)
  from 1 fees_NegInf_example(3) 3 4 fees_3333_example(2) 6 show ?thesis by blast
qed

text \<open>
  C4, amended. Whenever the floor of the 30% share of the converted input is below 1000,
  the tip is exactly 1000 lamports; and unless the priority fee is \<open>- Infinity\<close>, the total
  is strictly above the sum of the two floored shares, the total that the 70/30 split has
  without the minimum. Nothing is said of the total against the converted input itself.
\<close>

theorem minimum_tip_clamp:
  "js_lt (Math_floor (js_mul (js_mul totalFeeSol' LAMPORTS_PER_SOL) (num_lit (3 / 10)))) (Fin 1000)
   \<longrightarrow> jitoTipLamports (calculateRecommendedFees totalFeeSol') = Fin 1000
     \<and> (priorityFeeLamports (calculateRecommendedFees totalFeeSol') \<noteq> NegInf \<longrightarrow>
          js_lt (js_add (priorityFeeLamports (calculateRecommendedFees totalFeeSol'))
                  (Math_floor (js_mul (js_mul totalFeeSol' LAMPORTS_PER_SOL) (num_lit (3 / 10)))))
                (totalFeeLamports (calculateRecommendedFees totalFeeSol')))"
proof (intro impI conjI)
  define L where "L = js_mul totalFeeSol' (Fin 1000000000)"
  assume "js_lt (Math_floor (js_mul (js_mul totalFeeSol' LAMPORTS_PER_SOL) (num_lit (3 / 10))))
    (Fin 1000)"
  then have H: "js_lt (share_of L) (Fin 1000)"
    by (simp add: share_of_def L_def LAMPORTS_PER_SOL_value)
  then have M: "Math_max (share_of L) (Fin 1000) = Fin 1000" by (rule Math_max_lt)
  show "jitoTipLamports (calculateRecommendedFees totalFeeSol') = Fin 1000"
    using M by (simp add: fees_unfold L_def)
  assume "priorityFeeLamports (calculateRecommendedFees totalFeeSol') \<noteq> NegInf"
  then have "priority_of L \<noteq> NegInf" by (simp add: fees_unfold L_def)
  with H have "js_lt (js_add (priority_of L) (share_of L)) (js_add (priority_of L) (Fin 1000))"
    by (rule clamp_core)
  then show "js_lt (js_add (priorityFeeLamports (calculateRecommendedFees totalFeeSol'))
                  (Math_floor (js_mul (js_mul totalFeeSol' LAMPORTS_PER_SOL) (num_lit (3 / 10)))))
                (totalFeeLamports (calculateRecommendedFees totalFeeSol'))"
    using M by (simp add: fees_unfold L_def share_of_def LAMPORTS_PER_SOL_value)
qed

theorem minimum_tip_clamp_witness:
  "js_lt (Math_floor (js_mul (js_mul (num_lit (3 / 1000000)) LAMPORTS_PER_SOL) (num_lit (3 / 10))))
     (Fin 1000)
   \<and> priorityFeeLamports (calculateRecommendedFees (num_lit (3 / 1000000))) \<noteq> NegInf
   \<and> jitoTipLamports (calculateRecommendedFees (num_lit (3 / 1000000))) = Fin 1000
   \<and> js_lt (Fin 3000) (totalFeeLamports (calculateRecommendedFees (num_lit (3 / 1000000))))"
proof -
  have h: "js_lt (Math_floor (js_mul (js_mul (num_lit (3 / 1000000)) LAMPORTS_PER_SOL)
      (num_lit (3 / 10)))) (Fin 1000)"
    by (simp add: ex_3000_floor_tip js_lt_def)
  have p: "priorityFeeLamports (calculateRecommendedFees (num_lit (3 / 1000000))) \<noteq> NegInf"
    by (simp add: ex_3000_floor_tip)
  from minimum_tip_clamp[of "num_lit (3 / 1000000)"] h p show ?thesis
    by (simp add: ex_3000_floor_tip ex_3000_nominal)
qed

section \<open>Properties of the tip account selection\<close>

text \<open>
  C8. \<^verbatim>\<open>getRandomTipAccount\<close> makes no network call and reads the fixed list of eight
  accounts. With the draw \<open>r\<close> of \<^verbatim>\<open>Math.random()\<close> as an input, a binary64 value in
  \<open>[0, 1)\<close>, it returns the account at index \<open>floor (r * 8)\<close>, which is an element of the
  list, and the account at index \<open>i\<close> is returned exactly for the draws in the interval
  \<open>[i / 8, (i + 1) / 8)\<close>: eight intervals of the same length 1/8.
\<close>

theorem getRandomTipAccount_uniform:
  assumes "0 \<le> r" "r < 1" "round_binary64 r = r"
  shows "length TIP_ACCOUNTS = 8
       \<and> nat \<lfloor>r * 8\<rfloor> < 8
       \<and> getRandomTipAccount (Fin r) = Some (TIP_ACCOUNTS ! nat \<lfloor>r * 8\<rfloor>)
       \<and> TIP_ACCOUNTS ! nat \<lfloor>r * 8\<rfloor> \<in> set TIP_ACCOUNTS
       \<and> (\<forall>i<8. getRandomTipAccount (Fin r) = Some (TIP_ACCOUNTS ! i)
                  \<longleftrightarrow> of_nat i / 8 \<le> r \<and> r < (of_nat i + 1) / 8)"
proof -
  let ?n = "\<lfloor>r * 8\<rfloor>"
  have n0: "0 \<le> ?n" using assms(1) by simp
  have "r * 8 < 8" using assms(2) by simp
  then have n8: "?n < 8" by (simp add: floor_less_iff)
  have lt: "nat ?n < 8" using assms(1,2) by (simp add: nat_less_iff floor_less_iff)
  have g: "getRandomTipAccount (Fin r) = Some (TIP_ACCOUNTS ! nat ?n)"
    using n0 lt by (simp add: getRandomTipAccount_def Let_def TIP_ACCOUNTS_length
        randomIndex_exact[OF assms])
  have mem: "TIP_ACCOUNTS ! nat ?n \<in> set TIP_ACCOUNTS"
    using lt by (simp add: TIP_ACCOUNTS_length)
  have pre: "getRandomTipAccount (Fin r) = Some (TIP_ACCOUNTS ! i)
      \<longleftrightarrow> of_nat i / 8 \<le> r \<and> r < (of_nat i + 1) / 8" if "i < 8" for i
  proof -
    have "TIP_ACCOUNTS ! nat ?n = TIP_ACCOUNTS ! i \<longleftrightarrow> nat ?n = i"
      using lt that TIP_ACCOUNTS_distinct by (simp add: nth_eq_iff_index_eq TIP_ACCOUNTS_length)
    also have "\<dots> \<longleftrightarrow> ?n = int i" using n0 by auto
    also have "\<dots> \<longleftrightarrow> of_int (int i) \<le> r * 8 \<and> r * 8 < of_int (int i) + 1"
      by (rule floor_eq_iff)
    also have "\<dots> \<longleftrightarrow> of_nat i / 8 \<le> r \<and> r < (of_nat i + 1) / 8"
      by (simp add: field_simps)
    finally show ?thesis by (simp add: g)
  qed
  show ?thesis using TIP_ACCOUNTS_length lt g mem pre by blast
qed

theorem getRandomTipAccount_uniform_witness:
  "(0::rat) \<le> 1 / 2 \<and> (1 / 2 :: rat) < 1 \<and> round_binary64 (1 / 2) = 1 / 2
   \<and> getRandomTipAccount (Fin (1 / 2)) = Some ''DfXygSm4jCyNCybVYYK6DwvWqjKee8pbDmJGcLWNDXjh''"
proof -
  have h: "round_binary64 (1 / 2) = 1 / 2" using round_binary64_repr[of 1 "- 1"] by simp
  from getRandomTipAccount_uniform[of "1 / 2"] h show ?thesis
    by (simp add: TIP_ACCOUNTS_def)
qed
section \<open>Properties of the relay calls\<close>

text \<open>
  C9. The arguments that \<^verbatim>\<open>sendTransaction\<close> hands to the relay call depend on the
  encoding: with no encoding or with base64 they are the transaction followed by the object
  \<^verbatim>\<open>{encoding: "base64"}\<close>; with base58 they are the transaction alone. The encoding
  defaults to base64 and \<^verbatim>\<open>bundleOnly\<close> to false.
\<close>

theorem sendTransaction_params:
  "(encoding p = None \<or> encoding p = Some Base64 \<longrightarrow>
      sendTransaction sendTxn p =
        sendTxn [TransactionArg (transaction p), EncodingArg Base64]
          (case bundleOnly p of None \<Rightarrow> False | Some b \<Rightarrow> b))
   \<and> (encoding p = Some Base58 \<longrightarrow>
      sendTransaction sendTxn p =
        sendTxn [TransactionArg (transaction p)]
          (case bundleOnly p of None \<Rightarrow> False | Some b \<Rightarrow> b))"
  by (auto simp: sendTransaction_def)

text \<open>The three shapes of the call, with \<open>Pair\<close> recording the arguments.\<close>

theorem sendTransaction_params_witness:
  "sendTransaction Pair \<lparr>transaction = ''AQID'', encoding = None, bundleOnly = None\<rparr>
     = ([TransactionArg ''AQID'', EncodingArg Base64], False)
   \<and> sendTransaction Pair \<lparr>transaction = ''AQID'', encoding = Some Base64, bundleOnly = Some True\<rparr>
     = ([TransactionArg ''AQID'', EncodingArg Base64], True)
   \<and> sendTransaction Pair \<lparr>transaction = ''2VfUX'', encoding = Some Base58, bundleOnly = None\<rparr>
     = ([TransactionArg ''2VfUX''], False)"
  using sendTransaction_params [of "\<lparr>transaction = ''AQID'', encoding = None, bundleOnly = None\<rparr>" Pair]
    sendTransaction_params [of "\<lparr>transaction = ''AQID'', encoding = Some Base64, bundleOnly = Some True\<rparr>" Pair]
    sendTransaction_params [of "\<lparr>transaction = ''2VfUX'', encoding = Some Base58, bundleOnly = None\<rparr>" Pair]
  by simp

text \<open>
  C7. \<^verbatim>\<open>simulateBundle\<close> fails without calling the network when the endpoint is missing
  or empty. Otherwise it makes exactly one call, a POST of the JSON-RPC method
  \<^verbatim>\<open>simulateBundle\<close> whose \<^verbatim>\<open>params\<close> is a one-element array with the encoded
  transactions and the two flags, each flag false when not given; it fails with the HTTP
  status when the answer is not successful and returns the parsed body when it is.
\<close>

theorem simulateBundle_contract:
  "(rpcEndpoint = None \<or> rpcEndpoint = Some [] \<longrightarrow>
      simulateBundle fetched p rpcEndpoint = ([], Inl RpcEndpointRequired))
   \<and> (rpcEndpoint = Some rpcUrl \<and> rpcUrl \<noteq> [] \<longrightarrow>
        fst (simulateBundle fetched p rpcEndpoint) =
          [\<lparr>url = rpcUrl, http_method = ''POST'',
            headers = [(''Content-Type'', ''application/json'')],
            body = Some \<lparr>jsonrpc = ''2.0'', rpc_id = ''1'', rpc_method = ''simulateBundle'',
              params = [\<lparr>cfg_encodedTransactions = encodedTransactions p,
                cfg_skipSigVerify = (case skipSigVerify p of None \<Rightarrow> False | Some b \<Rightarrow> b),
                cfg_replaceRecentBlockhash =
                  (case replaceRecentBlockhash p of None \<Rightarrow> False | Some b \<Rightarrow> b)\<rparr>]\<rparr>\<rparr>]
        \<and> (fetched = Resolved response \<and> \<not> ok response \<longrightarrow>
             snd (simulateBundle fetched p rpcEndpoint) =
               Inl (FailedToSimulateBundle (status_code response)))
        \<and> (fetched = Resolved response \<and> ok response \<and> json response = Json v \<longrightarrow>
             snd (simulateBundle fetched p rpcEndpoint) = Inr (Some v)))"
  by (auto simp: simulateBundle_def Let_def)

theorem simulateBundle_contract_witness:
  "simulateBundle (Resolved \<lparr>ok = True, status_code = 200, json = Json (0::nat)\<rparr>)
       \<lparr>encodedTransactions = [''AQID''], skipSigVerify = None, replaceRecentBlockhash = None\<rparr> None
     = ([], Inl RpcEndpointRequired)
   \<and> simulateBundle (Resolved \<lparr>ok = False, status_code = 503, json = (NotJson :: nat json_body)\<rparr>)
       \<lparr>encodedTransactions = [''AQID''], skipSigVerify = None, replaceRecentBlockhash = None\<rparr>
       (Some ''https://rpc'')
     = ([\<lparr>url = ''https://rpc'', http_method = ''POST'',
            headers = [(''Content-Type'', ''application/json'')],
            body = Some \<lparr>jsonrpc = ''2.0'', rpc_id = ''1'', rpc_method = ''simulateBundle'',
              params = [\<lparr>cfg_encodedTransactions = [''AQID''], cfg_skipSigVerify = False,
                cfg_replaceRecentBlockhash = False\<rparr>]\<rparr>\<rparr>],
        Inl (FailedToSimulateBundle 503))
   \<and> snd (simulateBundle (Resolved \<lparr>ok = True, status_code = 200, json = Json (0::nat)\<rparr>)
       \<lparr>encodedTransactions = [''AQID''], skipSigVerify = Some True, replaceRecentBlockhash = None\<rparr>
       (Some ''https://rpc'')) = Inr (Some 0)"
  using
    simulateBundle_contract [of None "Resolved \<lparr>ok = True, status_code = 200, json = Json (0::nat)\<rparr>"
      "\<lparr>encodedTransactions = [''AQID''], skipSigVerify = None, replaceRecentBlockhash = None\<rparr>"]
    simulateBundle_contract [of "Some ''https://rpc''"
      "Resolved \<lparr>ok = False, status_code = 503, json = (NotJson :: nat json_body)\<rparr>"
      "\<lparr>encodedTransactions = [''AQID''], skipSigVerify = None, replaceRecentBlockhash = None\<rparr>"
      "''https://rpc''" "\<lparr>ok = False, status_code = 503, json = (NotJson :: nat json_body)\<rparr>"]
    simulateBundle_contract [of "Some ''https://rpc''"
      "Resolved \<lparr>ok = True, status_code = 200, json = Json (0::nat)\<rparr>"
      "\<lparr>encodedTransactions = [''AQID''], skipSigVerify = Some True, replaceRecentBlockhash = None\<rparr>"
      "''https://rpc''" "\<lparr>ok = True, status_code = 200, json = Json (0::nat)\<rparr>" 0]
  by (simp add: prod_eq_iff)

section \<open>Properties of the tip floor fetch\<close>

text \<open>
  C6, as stated, at an empty sequence: a successful answer whose body is the empty array
  makes \<^verbatim>\<open>getTipFloor\<close> return that empty array, not fail.
\<close>

theorem getTipFloor_empty_counterexample:
  "getTipFloor (Resolved \<lparr>ok = True, status_code = 200, json = Json []\<rparr>) = Inr (Some [])"
  by (simp add: getTipFloor_def)

text \<open>
  C6, amended. \<^verbatim>\<open>getTipFloor\<close> fails with the HTTP status when the answer is not
  successful, and the failure passes through \<^verbatim>\<open>getRecommendedFeeFromTipFloor\<close>; on a
  successful answer it returns the sequence as it is, also when it is empty. The empty
  sequence is refused one level up, by \<^verbatim>\<open>getRecommendedFeeFromTipFloor\<close>.
\<close>

theorem getTipFloor_errors:
  "(\<not> ok response \<longrightarrow>
      getTipFloor (Resolved response) = Inl (FailedToFetchTipFloor (status_code response))
      \<and> getRecommendedFeeFromTipFloor (Resolved response) percentile
          = Inl (FailedToFetchTipFloor (status_code response)))
   \<and> (ok response \<and> json response = Json tipFloor \<longrightarrow>
        getTipFloor (Resolved response) = Inr (Some tipFloor))
   \<and> (ok response \<and> json response = Json [] \<longrightarrow>
        getRecommendedFeeFromTipFloor (Resolved response) percentile = Inl NoTipFloorData)"
  by (auto simp: getTipFloor_def getRecommendedFeeFromTipFloor_def)

theorem getTipFloor_errors_witness:
  "getTipFloor (Resolved \<lparr>ok = False, status_code = 503, json = NotJson\<rparr>)
      = Inl (FailedToFetchTipFloor 503)
   \<and> getRecommendedFeeFromTipFloor (Resolved \<lparr>ok = False, status_code = 503, json = NotJson\<rparr>) None
      = Inl (FailedToFetchTipFloor 503)
   \<and> getTipFloor (Resolved \<lparr>ok = True, status_code = 200, json = Json []\<rparr>) = Inr (Some [])
   \<and> getRecommendedFeeFromTipFloor (Resolved \<lparr>ok = True, status_code = 200, json = Json []\<rparr>)
        (Some P50) = Inl NoTipFloorData"
  using
    getTipFloor_errors [of "\<lparr>ok = False, status_code = 503, json = NotJson\<rparr>" None]
    getTipFloor_errors [of "\<lparr>ok = True, status_code = 200, json = Json []\<rparr>" "Some P50" "[]"]
  by simp

section \<open>Properties of the status classification\<close>




end
